theory Spec2Isabelle
  imports Complex_Main "HOL-Library.AList" "HOL-Library.List_Lexorder" "HOL-Library.Char_ord"
begin

section \<open>Errors\<close>

text \<open>
  Every exception the wizard can raise is a value. \<open>UserError\<close> is the user-facing
  error of the host platform and carries its message. \<open>ValueError\<close> and
  \<open>OverflowError\<close> are raised by the calendar date type when a result leaves the years
  1 to 9999. \<open>ProgrammingError\<close> and \<open>DivisionByZero\<close> are the data store's errors for
  a query with an empty \<open>IN ()\<close> list and for a division by a zero factor.
  \<open>KeyError\<close> is a dictionary lookup of a missing key.
\<close>

datatype error =
    UserError string
  | ValueError
  | OverflowError
  | ProgrammingError
  | DivisionByZero
  | KeyError

text \<open>Sequencing of fallible steps: the first exception ends the call.\<close>

definition ebind :: "error + 'a \<Rightarrow> ('a \<Rightarrow> error + 'b) \<Rightarrow> error + 'b" where
  "ebind x f = (case x of Inl e \<Rightarrow> Inl e | Inr v \<Rightarrow> f v)"

lemma ebind_cong [fundef_cong]:
  "x = y \<Longrightarrow> (\<And>v. y = Inr v \<Longrightarrow> f v = g v) \<Longrightarrow> ebind x f = ebind y g"
  by (cases y) (simp_all add: ebind_def)

lemma ebind_Inr_iff:
  "ebind x f = Inr r \<longleftrightarrow> (\<exists>v. x = Inr v \<and> f v = Inr r)"
  by (cases x) (simp_all add: ebind_def)

lemma ebind_simps [simp]:
  "ebind (Inl e) f = Inl e"
  "ebind (Inr v) f = f v"
  by (simp_all add: ebind_def)

section \<open>Calendar dates\<close>

text \<open>
  The date type of the wizard's \<open>date_from\<close> and \<open>date_to\<close>: a year, a month and a
  day. The constructor accepts years 1 to 9999, months 1 to 12 and the days of that month
  in the proleptic Gregorian calendar, and raises \<open>ValueError\<close> otherwise.
\<close>

record date =
  year :: int
  month :: int
  day :: int

definition isleap :: "int \<Rightarrow> bool" where
  "isleap y = (y mod 4 = 0 \<and> (y mod 100 \<noteq> 0 \<or> y mod 400 = 0))"

definition days_in_month :: "int \<Rightarrow> int \<Rightarrow> int" where
  "days_in_month y m =
     (if m = 2 then (if isleap y then 29 else 28)
      else if m = 4 \<or> m = 6 \<or> m = 9 \<or> m = 11 then 30
      else 31)"

definition MINYEAR :: int where "MINYEAR = 1"
definition MAXYEAR :: int where "MAXYEAR = 9999"

definition valid_date :: "date \<Rightarrow> bool" where
  "valid_date d =
     (MINYEAR \<le> year d \<and> year d \<le> MAXYEAR \<and> 1 \<le> month d \<and> month d \<le> 12 \<and>
      1 \<le> day d \<and> day d \<le> days_in_month (year d) (month d))"

definition date_ctor :: "int \<Rightarrow> int \<Rightarrow> int \<Rightarrow> error + date" where
  "date_ctor y m d =
     (if valid_date \<lparr>year = y, month = m, day = d\<rparr>
      then Inr \<lparr>year = y, month = m, day = d\<rparr>
      else Inl ValueError)"

text \<open>\<open>d.replace(day=n)\<close> builds a new date and checks it again.\<close>

definition date_replace_day :: "date \<Rightarrow> int \<Rightarrow> error + date" where
  "date_replace_day d n = date_ctor (year d) (month d) n"

text \<open>Dates compare as the tuples (year, month, day).\<close>

definition date_le :: "date \<Rightarrow> date \<Rightarrow> bool" where
  "date_le a b =
     (year a < year b \<or>
      (year a = year b \<and> (month a < month b \<or> (month a = month b \<and> day a \<le> day b))))"

definition date_lt :: "date \<Rightarrow> date \<Rightarrow> bool" where
  "date_lt a b = (date_le a b \<and> a \<noteq> b)"

text \<open>
  \<open>d + relativedelta(months=1)\<close>: the month is advanced, a month 13 wraps into January
  of the next year, the day is cut to the length of the new month, and the date is
  rebuilt by \<open>replace\<close>, which raises \<open>ValueError\<close> for the year 10000.
\<close>

definition plus_one_month :: "date \<Rightarrow> error + date" where
  "plus_one_month d =
     (let m = month d + 1;
          y' = (if m > 12 then year d + 1 else if m < 1 then year d - 1 else year d);
          m' = (if m > 12 then m - 12 else if m < 1 then m + 12 else m);
          d' = min (days_in_month y' m') (day d)
      in date_ctor y' m' d')"

text \<open>
  \<open>d - timedelta(days=1)\<close>: the previous calendar day; before 0001-01-01 there is no
  date and the subtraction raises \<open>OverflowError\<close>.
\<close>

definition minus_one_day :: "date \<Rightarrow> error + date" where
  "minus_one_day d =
     (if day d > 1 then Inr (d\<lparr>day := day d - 1\<rparr>)
      else if month d > 1
        then Inr \<lparr>year = year d, month = month d - 1,
                 day = days_in_month (year d) (month d - 1)\<rparr>
      else if year d > MINYEAR then Inr \<lparr>year = year d - 1, month = 12, day = 31\<rparr>
      else Inl OverflowError)"

section \<open>The wizard and its month buckets\<close>

text \<open>
  The wizard's fields. The many-to-many filters are lists of record ids; the binary
  file and its name are outputs and are part of the result of report generation.
\<close>

record wizard =
  date_from :: date
  date_to :: date
  product_ids :: "int list"
  category_ids :: "int list"
  warehouse_ids :: "int list"
  include_pos :: bool
  include_sales :: bool
  include_purchases :: bool

text \<open>
  One entry of the list built by \<open>_get_months_in_range\<close>. The key \<open>name\<close>, the
  label printed by \<open>strftime('%B %Y')\<close>, is a rendering of \<open>m_date\<close> in the
  process locale and is left out.
\<close>

record month_bucket =
  m_date :: date
  m_year :: int
  m_month :: int
  m_start :: date
  m_end :: date

text \<open>\<open>_check_dates\<close>, the constraint evaluated when the wizard record is saved.\<close>

definition check_dates :: "wizard \<Rightarrow> error + unit" where
  "check_dates w =
     (if date_lt (date_to w) (date_from w)
      then Inl (UserError ''Start Date must be before End Date.'')
      else Inr ())"

text \<open>The month index used to measure the loop of \<open>_get_months_in_range\<close>.\<close>

definition month_index :: "date \<Rightarrow> int" where
  "month_index d = 12 * year d + (month d - 1)"

lemma plus_one_month_index:
  assumes "plus_one_month c = Inr n"
  shows "month_index n = month_index c + 1 \<and> year n \<le> 9999 \<and> month n \<le> 12
         \<and> 1 \<le> month n \<and> valid_date n"
  using assms
  by (auto simp: plus_one_month_def date_ctor_def valid_date_def month_index_def Let_def
      MAXYEAR_def split: if_splits)

text \<open>
  The loop \<open>while current <= end\<close> of \<open>_get_months_in_range\<close>. The source evaluates
  \<open>current + relativedelta(months=1)\<close> twice with the same value, for the key
  \<open>end\<close> and for the next \<open>current\<close>; it is bound once here.
\<close>

function months_loop :: "month_bucket list \<Rightarrow> date \<Rightarrow> date \<Rightarrow> error + month_bucket list" where
  "months_loop months current end_d =
     (if date_le current end_d then
        ebind (plus_one_month current) (\<lambda>nxt.
        ebind (minus_one_day nxt) (\<lambda>last_day.
          months_loop
            (months @ [\<lparr>m_date = current, m_year = year current, m_month = month current,
                        m_start = current, m_end = last_day\<rparr>])
            nxt end_d))
      else Inr months)"
  by pat_completeness auto
termination
proof (relation "measure (\<lambda>(months, current, end_d). nat (120001 - month_index current))")
  show "wf (measure (\<lambda>(months, current, end_d). nat (120001 - month_index current)))"
    by simp
next
  fix months :: "month_bucket list" and current end_d nxt last_day :: date
  assume "plus_one_month current = Inr nxt"
  then have "month_index nxt = month_index current + 1" and "month_index nxt \<le> 120000"
    using plus_one_month_index [of current nxt] by (simp_all add: month_index_def)
  then show "((months @ [\<lparr>m_date = current, m_year = year current, m_month = month current,
                     m_start = current, m_end = last_day\<rparr>], nxt, end_d), months, current, end_d)
        \<in> measure (\<lambda>(months, current, end_d). nat (120001 - month_index current))"
    by simp
qed

text \<open>The loop equation is unfolded by hand, one iteration at a time.\<close>

declare months_loop.simps [simp del]

definition get_months_in_range :: "wizard \<Rightarrow> error + month_bucket list" where
  "get_months_in_range w =
     ebind (date_replace_day (date_from w) 1) (\<lambda>current.
     ebind (date_replace_day (date_to w) 1) (\<lambda>end_d.
       months_loop [] current end_d))"

section \<open>The data the wizard reads\<close>

text \<open>
  The wizard reads the host platform's tables through searches and SQL queries. Each
  table is the list of its rows in the order a search returns them. A row holds the
  columns the wizard reads; columns reached through a join are fields of the joined row.
  Quantities and prices are rationals, the values the stored numbers stand for. Product
  names are of an ordered type \<open>'n\<close>: the order is the collation the data store sorts
  names by.
\<close>

record 'n product_product =
  p_id :: int
  p_name :: 'n
  p_type :: string
  p_categ_id :: int
  p_product_tmpl_id :: int

record mrp_bom =
  bom_id :: int
  bom_type :: string
  bom_product_tmpl_id :: int
  bom_product_id :: "int option"

text \<open>
  A bill-of-materials line: \<open>bl_product_id\<close> is the component, \<open>bl_product_uom_id\<close>
  the unit the line is written in and \<open>bl_component_uom_id\<close> the component's own unit
  (\<open>line.product_id.uom_id\<close>).
\<close>

record mrp_bom_line =
  bl_product_id :: int
  bl_bom_id :: int
  bl_product_qty :: rat
  bl_product_uom_id :: int
  bl_component_uom_id :: int

record stock_location =
  loc_id :: int
  loc_usage :: string
  loc_warehouse_id :: "int option"

text \<open>
  A stock move. \<open>sm_date\<close> is \<open>sm.date::date\<close>. \<open>sm_price_unit\<close> may be NULL.
  \<open>sm_purchase_price_unit\<close> is the \<open>price_unit\<close> of the purchase order line the move
  is linked to by \<open>purchase_line_id\<close>, when there is one.
\<close>

record stock_move =
  sm_product_id :: int
  sm_state :: string
  sm_date :: date
  sm_location_id :: int
  sm_location_dest_id :: int
  sm_product_qty :: rat
  sm_price_unit :: "rat option"
  sm_purchase_price_unit :: "rat option"

text \<open>
  Purchase and sale order lines joined with their order, their product's unit of measure
  (\<open>prod_uom\<close>) and the line's unit of measure; point-of-sale lines joined with their
  order.
\<close>

record purchase_order_line =
  pol_product_id :: int
  pol_order_state :: string
  pol_date_approve :: date
  pol_qty_received :: rat
  pol_price_unit :: rat
  pol_uom_factor :: rat
  pol_prod_uom_factor :: rat

record sale_order_line =
  sol_product_id :: int
  sol_order_state :: string
  sol_date_order :: date
  sol_qty_delivered :: rat
  sol_price_unit :: rat
  sol_uom_factor :: rat
  sol_prod_uom_factor :: rat

record pos_order_line =
  posl_product_id :: int
  posl_order_state :: string
  posl_date_order :: date
  posl_qty :: rat
  posl_price_subtotal_incl :: rat

text \<open>
  The environment of a call. \<open>xlsxwriter\<close> says whether the import of the spreadsheet
  library succeeded. \<open>categ_child_of c ids\<close> is the platform's \<open>child_of\<close> operator on
  the category tree and \<open>uom_compute_quantity u q t\<close> its unit conversion
  \<open>u._compute_quantity(q, t)\<close>. \<open>float_add x y\<close> is the \<open>x + y\<close> of the language's
  floating-point numbers, which the query results are: the sum rounded to a number the
  format has. All three belong to the platform and are parameters.
\<close>

record 'n env =
  xlsxwriter :: bool
  products :: "'n product_product list"
  categ_child_of :: "int \<Rightarrow> int list \<Rightarrow> bool"
  boms :: "mrp_bom list"
  bom_lines :: "mrp_bom_line list"
  uom_compute_quantity :: "int \<Rightarrow> rat \<Rightarrow> int \<Rightarrow> rat"
  float_add :: "rat \<Rightarrow> rat \<Rightarrow> rat"
  locations :: "stock_location list"
  stock_moves :: "stock_move list"
  purchase_lines :: "purchase_order_line list"
  sale_lines :: "sale_order_line list"
  pos_lines :: "pos_order_line list"

section \<open>Product Selector\<close>

text \<open>
  \<open>_get_products\<close>: the search with \<open>order='name'\<close>, then the removal of every
  variant whose template has a phantom bill of materials.
\<close>

definition search_domain :: "'n env \<Rightarrow> wizard \<Rightarrow> 'n product_product \<Rightarrow> bool" where
  "search_domain env w p =
     (p_type p = ''consu'' \<and>
      (product_ids w \<noteq> [] \<longrightarrow> p_id p \<in> set (product_ids w)) \<and>
      (category_ids w \<noteq> [] \<longrightarrow> categ_child_of env (p_categ_id p) (category_ids w)))"

definition get_products :: "('n::linorder) env \<Rightarrow> wizard \<Rightarrow> 'n product_product list" where
  "get_products env w =
     (let found = sort_key p_name (filter (search_domain env w) (products env)) in
      if found \<noteq> [] then
        (let phantom_bom_product_tmpl_ids =
               map bom_product_tmpl_id
                 (filter (\<lambda>b. bom_type b = ''phantom'' \<and>
                              bom_product_tmpl_id b \<in> set (map p_product_tmpl_id found))
                    (boms env))
         in if phantom_bom_product_tmpl_ids \<noteq> []
            then filter (\<lambda>p. p_product_tmpl_id p \<notin> set phantom_bom_product_tmpl_ids) found
            else found)
      else found)"

section \<open>Location set\<close>

definition get_location_ids :: "'n env \<Rightarrow> wizard \<Rightarrow> int list" where
  "get_location_ids env w =
     (if warehouse_ids w \<noteq> [] then
        map loc_id
          (filter (\<lambda>l. loc_usage l = ''internal'' \<and>
                       (case loc_warehouse_id l of None \<Rightarrow> False
                        | Some wh \<Rightarrow> wh \<in> set (warehouse_ids w)))
             (locations env))
      else map loc_id (filter (\<lambda>l. loc_usage l = ''internal'') (locations env)))"

section \<open>Stock-at-date\<close>

text \<open>
  \<open>_get_stock_at_date\<close>. The query's \<open>IN %s\<close> is filled with
  \<open>tuple(location_ids)\<close>; an empty tuple makes the text \<open>IN ()\<close>, which the data store
  refuses. The sum follows the \<open>CASE\<close> of the query: its first branch is taken whenever
  the destination is in the set.
\<close>

definition get_stock_at_date :: "'n env \<Rightarrow> int \<Rightarrow> date \<Rightarrow> int list \<Rightarrow> error + rat" where
  "get_stock_at_date env product_id as_of location_ids =
     (if location_ids = [] then Inl ProgrammingError
      else Inr (sum_list (map
        (\<lambda>sm. if sm_location_dest_id sm \<in> set location_ids then sm_product_qty sm
              else if sm_location_id sm \<in> set location_ids then - sm_product_qty sm
              else 0)
        (filter (\<lambda>sm. sm_product_id sm = product_id \<and> sm_state sm = ''done'' \<and>
                      date_le (sm_date sm) as_of \<and>
                      (sm_location_id sm \<in> set location_ids \<or>
                       sm_location_dest_id sm \<in> set location_ids))
           (stock_moves env)))))"

section \<open>Kit Resolver\<close>

text \<open>
  \<open>_get_phantom_bom_components\<close>. The result dictionary is an association list in
  insertion order; an assignment to a key already present replaces its value in place, as
  \<^const>\<open>AList.update\<close> does.
\<close>

definition line_component_qty :: "'n env \<Rightarrow> mrp_bom_line \<Rightarrow> rat" where
  "line_component_qty env line =
     (if bl_product_uom_id line \<noteq> bl_component_uom_id line
      then uom_compute_quantity env (bl_product_uom_id line) (bl_product_qty line)
             (bl_component_uom_id line)
      else bl_product_qty line)"

definition product_variant_ids :: "'n env \<Rightarrow> int \<Rightarrow> int list" where
  "product_variant_ids env tmpl =
     map p_id (filter (\<lambda>p. p_product_tmpl_id p = tmpl) (products env))"

text \<open>
  The body of \<open>for line in bom_lines\<close>. A line whose \<open>bom_id\<close> finds no bill reads
  an empty record, whose \<open>type\<close> is not \<open>'phantom'\<close>.
\<close>

definition resolve_line ::
  "'n env \<Rightarrow> mrp_bom_line \<Rightarrow> (int \<times> rat) list \<Rightarrow> (int \<times> rat) list" where
  "resolve_line env line result =
     (case find (\<lambda>b. bom_id b = bl_bom_id line) (boms env) of
        None \<Rightarrow> result
      | Some bom \<Rightarrow>
          if bom_type bom = ''phantom'' then
            (case bom_product_id bom of
               Some kit_product_id \<Rightarrow>
                 AList.update kit_product_id (line_component_qty env line) result
             | None \<Rightarrow>
                 fold (\<lambda>kit_product_id r.
                         AList.update kit_product_id (line_component_qty env line) r)
                   (product_variant_ids env (bom_product_tmpl_id bom)) result)
          else result)"

definition component_lines :: "'n env \<Rightarrow> int \<Rightarrow> mrp_bom_line list" where
  "component_lines env product_id =
     filter (\<lambda>l. bl_product_id l = product_id) (bom_lines env)"

definition get_phantom_bom_components :: "'n env \<Rightarrow> int \<Rightarrow> (int \<times> rat) list" where
  "get_phantom_bom_components env product_id =
     fold (resolve_line env) (component_lines env product_id) []"

section \<open>Window-moves\<close>

text \<open>The ten entries of the dictionary \<open>data\<close> of \<open>_get_stock_moves_data\<close>.\<close>

record move_data =
  qty_in :: rat
  qty_out :: rat
  value_in :: rat
  value_out :: rat
  purchase_qty :: rat
  purchase_value :: rat
  sale_qty :: rat
  sale_value :: rat
  pos_qty :: rat
  pos_value :: rat

text \<open>\<open>x >= date_start AND x <= date_end\<close>.\<close>

definition in_window :: "date \<Rightarrow> date \<Rightarrow> date \<Rightarrow> bool" where
  "in_window d date_start date_end = (date_le date_start d \<and> date_le d date_end)"

text \<open>
  The incoming and the outgoing query. A row whose price is NULL adds nothing to the
  value, as \<open>SUM\<close> skips NULL.
\<close>

definition query_incoming ::
  "'n env \<Rightarrow> int \<Rightarrow> date \<Rightarrow> date \<Rightarrow> int list \<Rightarrow> error + rat \<times> rat" where
  "query_incoming env product_id date_start date_end location_ids =
     (if location_ids = [] then Inl ProgrammingError
      else
        (let rows = filter
               (\<lambda>sm. sm_product_id sm = product_id \<and> sm_state sm = ''done'' \<and>
                     in_window (sm_date sm) date_start date_end \<and>
                     sm_location_dest_id sm \<in> set location_ids \<and>
                     sm_location_id sm \<notin> set location_ids)
               (stock_moves env)
         in Inr (sum_list (map sm_product_qty rows),
                 sum_list (map
                   (\<lambda>sm. case (case sm_purchase_price_unit sm of
                                  Some price \<Rightarrow> Some price
                                | None \<Rightarrow> sm_price_unit sm) of
                            Some price \<Rightarrow> sm_product_qty sm * price
                          | None \<Rightarrow> 0)
                   rows))))"

definition query_outgoing ::
  "'n env \<Rightarrow> int \<Rightarrow> date \<Rightarrow> date \<Rightarrow> int list \<Rightarrow> error + rat \<times> rat" where
  "query_outgoing env product_id date_start date_end location_ids =
     (if location_ids = [] then Inl ProgrammingError
      else
        (let rows = filter
               (\<lambda>sm. sm_product_id sm = product_id \<and> sm_state sm = ''done'' \<and>
                     in_window (sm_date sm) date_start date_end \<and>
                     sm_location_id sm \<in> set location_ids \<and>
                     sm_location_dest_id sm \<notin> set location_ids)
               (stock_moves env)
         in Inr (sum_list (map sm_product_qty rows),
                 sum_list (map
                   (\<lambda>sm. case sm_price_unit sm of
                            Some price \<Rightarrow> sm_product_qty sm * price
                          | None \<Rightarrow> 0)
                   rows))))"

text \<open>
  The purchase query. The quantity is \<open>qty_received / pol_uom.factor * prod_uom.factor\<close>;
  the data store raises on a division by zero in a selected row.
\<close>

definition purchase_rows ::
  "'n env \<Rightarrow> int \<Rightarrow> date \<Rightarrow> date \<Rightarrow> purchase_order_line list" where
  "purchase_rows env product_id date_start date_end =
     filter (\<lambda>l. pol_product_id l = product_id \<and>
                  (pol_order_state l = ''purchase'' \<or> pol_order_state l = ''done'') \<and>
                  in_window (pol_date_approve l) date_start date_end)
       (purchase_lines env)"

definition query_purchase :: "'n env \<Rightarrow> int \<Rightarrow> date \<Rightarrow> date \<Rightarrow> error + rat \<times> rat" where
  "query_purchase env product_id date_start date_end =
     (let rows = purchase_rows env product_id date_start date_end in
      if list_ex (\<lambda>l. pol_uom_factor l = 0) rows then Inl DivisionByZero
      else Inr (sum_list (map (\<lambda>l. pol_qty_received l / pol_uom_factor l * pol_prod_uom_factor l)
                            rows),
                sum_list (map (\<lambda>l. pol_qty_received l * pol_price_unit l) rows)))"

text \<open>
  The sale query. The source runs the same text for the product itself and for each kit
  that contains it.
\<close>

definition sale_rows :: "'n env \<Rightarrow> int \<Rightarrow> date \<Rightarrow> date \<Rightarrow> sale_order_line list" where
  "sale_rows env product_id date_start date_end =
     filter (\<lambda>l. sol_product_id l = product_id \<and>
                  (sol_order_state l = ''sale'' \<or> sol_order_state l = ''done'') \<and>
                  in_window (sol_date_order l) date_start date_end)
       (sale_lines env)"

definition sale_qty_sum :: "'n env \<Rightarrow> int \<Rightarrow> date \<Rightarrow> date \<Rightarrow> rat" where
  "sale_qty_sum env product_id date_start date_end =
     sum_list (map (\<lambda>l. sol_qty_delivered l / sol_uom_factor l * sol_prod_uom_factor l)
       (sale_rows env product_id date_start date_end))"

definition sale_value_sum :: "'n env \<Rightarrow> int \<Rightarrow> date \<Rightarrow> date \<Rightarrow> rat" where
  "sale_value_sum env product_id date_start date_end =
     sum_list (map (\<lambda>l. sol_qty_delivered l * sol_price_unit l)
       (sale_rows env product_id date_start date_end))"

definition query_sale :: "'n env \<Rightarrow> int \<Rightarrow> date \<Rightarrow> date \<Rightarrow> error + rat \<times> rat" where
  "query_sale env product_id date_start date_end =
     (if list_ex (\<lambda>l. sol_uom_factor l = 0) (sale_rows env product_id date_start date_end)
      then Inl DivisionByZero
      else Inr (sale_qty_sum env product_id date_start date_end,
                sale_value_sum env product_id date_start date_end))"

text \<open>The point-of-sale query, also run for the product and for each kit.\<close>

definition pos_rows :: "'n env \<Rightarrow> int \<Rightarrow> date \<Rightarrow> date \<Rightarrow> pos_order_line list" where
  "pos_rows env product_id date_start date_end =
     filter (\<lambda>l. posl_product_id l = product_id \<and>
                  (posl_order_state l = ''paid'' \<or> posl_order_state l = ''done'' \<or>
                   posl_order_state l = ''invoiced'') \<and>
                  in_window (posl_date_order l) date_start date_end)
       (pos_lines env)"

definition query_pos :: "'n env \<Rightarrow> int \<Rightarrow> date \<Rightarrow> date \<Rightarrow> rat \<times> rat" where
  "query_pos env product_id date_start date_end =
     (let rows = pos_rows env product_id date_start date_end in
      (sum_list (map posl_qty rows), sum_list (map posl_price_subtotal_incl rows)))"

text \<open>
  The loops \<open>for kit_product_id, bom_qty in phantom_bom_data.items()\<close>. The pair carried
  along is (\<open>data['sale_qty']\<close>, \<open>data['sale_value']\<close>), respectively the point-of-sale
  pair; a kit adds to both only when its own quantity is not zero
  (\<open>if result and result[0]\<close>).
\<close>

fun kit_sales ::
  "'n env \<Rightarrow> date \<Rightarrow> date \<Rightarrow> (int \<times> rat) list \<Rightarrow> rat \<times> rat \<Rightarrow> error + rat \<times> rat" where
  "kit_sales env date_start date_end [] acc = Inr acc"
| "kit_sales env date_start date_end ((kit_product_id, bom_qty) # items) acc =
     ebind (query_sale env kit_product_id date_start date_end) (\<lambda>result.
       if fst result \<noteq> 0
       then kit_sales env date_start date_end items
              (fst acc + fst result * bom_qty, snd acc + snd result * bom_qty)
       else kit_sales env date_start date_end items acc)"

fun kit_pos ::
  "'n env \<Rightarrow> date \<Rightarrow> date \<Rightarrow> (int \<times> rat) list \<Rightarrow> rat \<times> rat \<Rightarrow> rat \<times> rat" where
  "kit_pos env date_start date_end [] acc = acc"
| "kit_pos env date_start date_end ((kit_product_id, bom_qty) # items) acc =
     (let result = query_pos env kit_product_id date_start date_end in
      if fst result \<noteq> 0
      then kit_pos env date_start date_end items
             (fst acc + fst result * bom_qty, snd acc + snd result * bom_qty)
      else kit_pos env date_start date_end items acc)"

text \<open>\<open>_get_stock_moves_data\<close>: the queries in the order the source runs them.\<close>

definition get_stock_moves_data ::
  "'n env \<Rightarrow> wizard \<Rightarrow> int \<Rightarrow> date \<Rightarrow> date \<Rightarrow> int list \<Rightarrow> error + move_data" where
  "get_stock_moves_data env w product_id date_start date_end location_ids =
     (let phantom_bom_data = get_phantom_bom_components env product_id in
      ebind (query_incoming env product_id date_start date_end location_ids) (\<lambda>incoming.
      ebind (query_outgoing env product_id date_start date_end location_ids) (\<lambda>outgoing.
      ebind (if include_purchases w
             then query_purchase env product_id date_start date_end
             else Inr (0, 0)) (\<lambda>purchase.
      ebind (if include_sales w
             then ebind (query_sale env product_id date_start date_end)
                    (kit_sales env date_start date_end phantom_bom_data)
             else Inr (0, 0)) (\<lambda>sale.
      (let pos = (if include_pos w
                  then kit_pos env date_start date_end phantom_bom_data
                         (query_pos env product_id date_start date_end)
                  else (0, 0))
       in Inr \<lparr>qty_in = fst incoming, qty_out = fst outgoing,
                value_in = snd incoming, value_out = snd outgoing,
                purchase_qty = fst purchase, purchase_value = snd purchase,
                sale_qty = fst sale, sale_value = snd sale,
                pos_qty = fst pos, pos_value = snd pos\<rparr>))))))"

section \<open>Report Assembler\<close>

text \<open>
  The values \<open>_write_excel_content\<close> writes for one product: per month the dictionary
  \<open>month_data\<close>, and the dictionary \<open>yearly_totals\<close>, keyed by year. The worksheet,
  its headers and its cell formats belong to the spreadsheet library.
\<close>

record month_data =
  md_opening_qty :: rat
  md_purchase_qty :: rat
  md_purchase_value :: rat
  md_sale_qty :: rat
  md_sale_value :: rat
  md_pos_qty :: rat
  md_pos_value :: rat
  md_closing_qty :: rat

record year_totals =
  total_purchase_qty :: rat
  total_purchase_value :: rat
  total_sale_qty :: rat
  total_sale_value :: rat
  total_pos_qty :: rat
  total_pos_value :: rat

text \<open>\<open>sorted(set(m['year'] for m in months))\<close>.\<close>

definition years_in_range :: "month_bucket list \<Rightarrow> int list" where
  "years_in_range months = sort (remdups (map m_year months))"

definition initial_totals :: "month_bucket list \<Rightarrow> (int \<times> year_totals) list" where
  "initial_totals months =
     map (\<lambda>y. (y, \<lparr>total_purchase_qty = 0, total_purchase_value = 0, total_sale_qty = 0,
                   total_sale_value = 0, total_pos_qty = 0, total_pos_value = 0\<rparr>))
       (years_in_range months)"

text \<open>
  The six \<open>yearly_totals[year][...] += ...\<close>, each a floating-point addition \<open>add\<close>
  of the total so far and the month's figure; a year that is no key raises.
\<close>

definition accumulate ::
  "(rat \<Rightarrow> rat \<Rightarrow> rat) \<Rightarrow> (int \<times> year_totals) list \<Rightarrow> int \<Rightarrow> move_data \<Rightarrow>
   error + (int \<times> year_totals) list" where
  "accumulate add yearly_totals y data =
     (case map_of yearly_totals y of
        None \<Rightarrow> Inl KeyError
      | Some t \<Rightarrow>
          Inr (AList.update y
                 \<lparr>total_purchase_qty = add (total_purchase_qty t) (purchase_qty data),
                  total_purchase_value = add (total_purchase_value t) (purchase_value data),
                  total_sale_qty = add (total_sale_qty t) (sale_qty data),
                  total_sale_value = add (total_sale_value t) (sale_value data),
                  total_pos_qty = add (total_pos_qty t) (pos_qty data),
                  total_pos_value = add (total_pos_value t) (pos_value data)\<rparr>
                 yearly_totals))"

text \<open>Opening and closing stock of a month, as the loop \<open>for month in months\<close> asks.\<close>

definition opening_stock :: "'n env \<Rightarrow> int \<Rightarrow> month_bucket \<Rightarrow> int list \<Rightarrow> error + rat" where
  "opening_stock env product_id m location_ids =
     ebind (minus_one_day (m_start m)) (\<lambda>d. get_stock_at_date env product_id d location_ids)"

definition closing_stock :: "'n env \<Rightarrow> int \<Rightarrow> month_bucket \<Rightarrow> int list \<Rightarrow> error + rat" where
  "closing_stock env product_id m location_ids =
     get_stock_at_date env product_id (m_end m) location_ids"

fun month_rows ::
  "'n env \<Rightarrow> wizard \<Rightarrow> int \<Rightarrow> int list \<Rightarrow> month_bucket list \<Rightarrow> (int \<times> year_totals) list \<Rightarrow>
   error + month_data list \<times> (int \<times> year_totals) list" where
  "month_rows env w product_id location_ids [] yearly_totals = Inr ([], yearly_totals)"
| "month_rows env w product_id location_ids (m # months) yearly_totals =
     ebind (opening_stock env product_id m location_ids) (\<lambda>opening_qty.
     ebind (get_stock_moves_data env w product_id (m_start m) (m_end m) location_ids)
       (\<lambda>data.
     ebind (closing_stock env product_id m location_ids) (\<lambda>closing_qty.
     ebind (accumulate (float_add env) yearly_totals (m_year m) data) (\<lambda>yearly_totals'.
     ebind (month_rows env w product_id location_ids months yearly_totals') (\<lambda>rest.
       Inr (\<lparr>md_opening_qty = opening_qty,
              md_purchase_qty = purchase_qty data, md_purchase_value = purchase_value data,
              md_sale_qty = sale_qty data, md_sale_value = sale_value data,
              md_pos_qty = pos_qty data, md_pos_value = pos_value data,
              md_closing_qty = closing_qty\<rparr> # fst rest, snd rest))))))"

text \<open>One row of the sheet: the product, its monthly values and its yearly totals.\<close>

definition product_row ::
  "'n env \<Rightarrow> wizard \<Rightarrow> int \<Rightarrow> month_bucket list \<Rightarrow> int list \<Rightarrow>
   error + month_data list \<times> (int \<times> year_totals) list" where
  "product_row env w product_id months location_ids =
     month_rows env w product_id location_ids months (initial_totals months)"

fun write_excel_content ::
  "'n env \<Rightarrow> wizard \<Rightarrow> 'n product_product list \<Rightarrow> month_bucket list \<Rightarrow> int list \<Rightarrow>
   error + (int \<times> month_data list \<times> (int \<times> year_totals) list) list" where
  "write_excel_content env w [] months location_ids = Inr []"
| "write_excel_content env w (product # rest) months location_ids =
     ebind (product_row env w (p_id product) months location_ids) (\<lambda>row.
     ebind (write_excel_content env w rest months location_ids) (\<lambda>rows.
       Inr ((p_id product, row) # rows)))"

text \<open>
  \<open>action_generate_report\<close>. Its result is the content written to the sheet; an error
  leaves the wizard without a file.
\<close>

definition action_generate_report ::
  "('n::linorder) env \<Rightarrow> wizard \<Rightarrow>
   error + (int \<times> month_data list \<times> (int \<times> year_totals) list) list" where
  "action_generate_report env w =
     (if \<not> xlsxwriter env
      then Inl (UserError
        ''xlsxwriter library is required. Please install it using: pip install xlsxwriter'')
      else
        (let found = get_products env w in
         if found = [] then Inl (UserError ''No products found with the given criteria.'')
         else
           ebind (get_months_in_range w) (\<lambda>months.
             if months = []
             then Inl (UserError ''No months found in the selected date range.'')
             else
               (let location_ids = get_location_ids env w in
                if location_ids = [] then Inl (UserError ''No stock locations found.'')
                else write_excel_content env w found months location_ids))))"

text \<open>
  Report generation as the platform runs it: the wizard record is saved, which evaluates
  the constraint \<open>_check_dates\<close>, and then the button's method is called.
\<close>

definition generate_report ::
  "('n::linorder) env \<Rightarrow> wizard \<Rightarrow>
   error + (int \<times> month_data list \<times> (int \<times> year_totals) list) list" where
  "generate_report env w = ebind (check_dates w) (\<lambda>_. action_generate_report env w)"

section \<open>Statements about the month buckets\<close>

text \<open>
  The bucket of the calendar month with index \<open>i = 12 * year + (month - 1)\<close>, the closed
  form the loop of \<open>_get_months_in_range\<close> is compared with.
\<close>

definition bucket_at :: "int \<Rightarrow> month_bucket" where
  "bucket_at i =
     \<lparr>m_date = \<lparr>year = i div 12, month = i mod 12 + 1, day = 1\<rparr>,
      m_year = i div 12, m_month = i mod 12 + 1,
      m_start = \<lparr>year = i div 12, month = i mod 12 + 1, day = 1\<rparr>,
      m_end = \<lparr>year = i div 12, month = i mod 12 + 1,
               day = days_in_month (i div 12) (i mod 12 + 1)\<rparr>\<rparr>"

definition first_of_month :: "date \<Rightarrow> bool" where
  "first_of_month d = (valid_date d \<and> day d = 1)"

text \<open>\<open>b\<close> is the calendar month right after \<open>a\<close>.\<close>

definition next_month :: "month_bucket \<Rightarrow> month_bucket \<Rightarrow> bool" where
  "next_month a b =
     (if m_month a = 12 then m_year b = m_year a + 1 \<and> m_month b = 1
      else m_year b = m_year a \<and> m_month b = m_month a + 1)"

text \<open>The pair (year, month) of \<open>a\<close> is before that of \<open>b\<close>.\<close>

definition earlier_month :: "month_bucket \<Rightarrow> month_bucket \<Rightarrow> bool" where
  "earlier_month a b =
     (m_year a < m_year b \<or> (m_year a = m_year b \<and> m_month a < m_month b))"

definition bucket_contains :: "month_bucket \<Rightarrow> date \<Rightarrow> bool" where
  "bucket_contains b d = (date_le (m_start b) d \<and> date_le d (m_end b))"

text \<open>
  A bucket is a whole calendar month: it starts on day 1 and ends on the last day of the
  month its keys \<open>year\<close> and \<open>month\<close> name.
\<close>

definition calendar_month :: "month_bucket \<Rightarrow> bool" where
  "calendar_month b =
     (1 \<le> m_month b \<and> m_month b \<le> 12 \<and>
      m_date b = m_start b \<and>
      m_start b = \<lparr>year = m_year b, month = m_month b, day = 1\<rparr> \<and>
      m_end b = \<lparr>year = m_year b, month = m_month b,
                 day = days_in_month (m_year b) (m_month b)\<rparr>)"

text \<open>A wizard with the given dates, no filter and every channel enabled.\<close>

definition wiz :: "date \<Rightarrow> date \<Rightarrow> wizard" where
  "wiz a b = \<lparr>date_from = a, date_to = b, product_ids = [], category_ids = [],
     warehouse_ids = [], include_pos = True, include_sales = True, include_purchases = True\<rparr>"

section \<open>Statements about the Kit Resolver\<close>

text \<open>
  The kit products one bill-of-materials line is attributed to: the variant of a phantom
  bill written for one variant, every variant of the template of a phantom bill written
  for a template, and none when the bill is not phantom.
\<close>

definition line_kit_ids :: "'n env \<Rightarrow> mrp_bom_line \<Rightarrow> int list" where
  "line_kit_ids env line =
     (case find (\<lambda>b. bom_id b = bl_bom_id line) (boms env) of
        None \<Rightarrow> []
      | Some bom \<Rightarrow>
          if bom_type bom = ''phantom'' then
            (case bom_product_id bom of
               Some kit_product_id \<Rightarrow> [kit_product_id]
             | None \<Rightarrow> product_variant_ids env (bom_product_tmpl_id bom))
          else [])"

text \<open>The component's lines that reach a given kit product, in processing order.\<close>

definition lines_reaching :: "'n env \<Rightarrow> int \<Rightarrow> int \<Rightarrow> mrp_bom_line list" where
  "lines_reaching env product_id kit_id =
     filter (\<lambda>l. kit_id \<in> set (line_kit_ids env l)) (component_lines env product_id)"

text \<open>
  The quantity of the component in a kit, as the docstring of
  \<open>_get_phantom_bom_components\<close> and the specification word it: what the lines that
  reach the kit consume together.
\<close>

definition claimed_kit_quantity :: "'n env \<Rightarrow> int \<Rightarrow> int \<Rightarrow> rat" where
  "claimed_kit_quantity env product_id kit_id =
     sum_list (map (line_component_qty env) (lines_reaching env product_id kit_id))"

section \<open>Statements about the yearly totals\<close>

text \<open>
  One monthly figure of the months of year \<open>y\<close>, in month order, the months paired with
  the rows written for them; and the exact sum of these figures.
\<close>

definition year_figures ::
  "(month_data \<Rightarrow> rat) \<Rightarrow> int \<Rightarrow> month_bucket list \<Rightarrow> month_data list \<Rightarrow> rat list" where
  "year_figures field y months rows =
     map (\<lambda>(m, row). field row) (filter (\<lambda>(m, row). m_year m = y) (zip months rows))"

definition year_sum ::
  "(month_data \<Rightarrow> rat) \<Rightarrow> int \<Rightarrow> month_bucket list \<Rightarrow> month_data list \<Rightarrow> rat" where
  "year_sum field y months rows = sum_list (year_figures field y months rows)"

text \<open>
  Each of the six totals of a year is what adding the monthly figures of that year to 0
  gives, one after the other in month order, with the addition \<open>add\<close>.
\<close>

definition totals_match ::
  "(rat \<Rightarrow> rat \<Rightarrow> rat) \<Rightarrow> month_bucket list \<Rightarrow> month_data list \<Rightarrow> int \<times> year_totals \<Rightarrow> bool"
  where
  "totals_match add months rows yt =
     (total_purchase_qty (snd yt) =
        foldl add 0 (year_figures md_purchase_qty (fst yt) months rows) \<and>
      total_purchase_value (snd yt) =
        foldl add 0 (year_figures md_purchase_value (fst yt) months rows) \<and>
      total_sale_qty (snd yt) = foldl add 0 (year_figures md_sale_qty (fst yt) months rows) \<and>
      total_sale_value (snd yt) =
        foldl add 0 (year_figures md_sale_value (fst yt) months rows) \<and>
      total_pos_qty (snd yt) = foldl add 0 (year_figures md_pos_qty (fst yt) months rows) \<and>
      total_pos_value (snd yt) = foldl add 0 (year_figures md_pos_value (fst yt) months rows))"

text \<open>The same with the totals \<open>t0\<close> the months started from.\<close>

definition totals_offset ::
  "(rat \<Rightarrow> rat \<Rightarrow> rat) \<Rightarrow> month_bucket list \<Rightarrow> month_data list \<Rightarrow> int \<Rightarrow>
   year_totals \<Rightarrow> year_totals \<Rightarrow> bool" where
  "totals_offset add months rows y t0 t =
     (total_purchase_qty t =
        foldl add (total_purchase_qty t0) (year_figures md_purchase_qty y months rows) \<and>
      total_purchase_value t =
        foldl add (total_purchase_value t0) (year_figures md_purchase_value y months rows) \<and>
      total_sale_qty t = foldl add (total_sale_qty t0) (year_figures md_sale_qty y months rows) \<and>
      total_sale_value t =
        foldl add (total_sale_value t0) (year_figures md_sale_value y months rows) \<and>
      total_pos_qty t = foldl add (total_pos_qty t0) (year_figures md_pos_qty y months rows) \<and>
      total_pos_value t =
        foldl add (total_pos_value t0) (year_figures md_pos_value y months rows))"

text \<open>
  The totals as the specification words them: each is exactly the sum of the monthly
  figures of that year.
\<close>

definition totals_are_sums ::
  "month_bucket list \<Rightarrow> month_data list \<Rightarrow> int \<times> year_totals \<Rightarrow> bool" where
  "totals_are_sums months rows yt =
     (total_purchase_qty (snd yt) = year_sum md_purchase_qty (fst yt) months rows \<and>
      total_purchase_value (snd yt) = year_sum md_purchase_value (fst yt) months rows \<and>
      total_sale_qty (snd yt) = year_sum md_sale_qty (fst yt) months rows \<and>
      total_sale_value (snd yt) = year_sum md_sale_value (fst yt) months rows \<and>
      total_pos_qty (snd yt) = year_sum md_pos_qty (fst yt) months rows \<and>
      total_pos_value (snd yt) = year_sum md_pos_value (fst yt) months rows)"

text \<open>
  No addition rounds when the figures \<open>xs\<close> are added to \<open>a\<close> one after the other;
  and that for each of the six totals of year \<open>y\<close>.
\<close>

fun adds_exact :: "(rat \<Rightarrow> rat \<Rightarrow> rat) \<Rightarrow> rat \<Rightarrow> rat list \<Rightarrow> bool" where
  "adds_exact add a [] = True"
| "adds_exact add a (x # xs) = (add a x = a + x \<and> adds_exact add (add a x) xs)"

definition totals_exact ::
  "(rat \<Rightarrow> rat \<Rightarrow> rat) \<Rightarrow> month_bucket list \<Rightarrow> month_data list \<Rightarrow> int \<Rightarrow> bool" where
  "totals_exact add months rows y =
     (adds_exact add 0 (year_figures md_purchase_qty y months rows) \<and>
      adds_exact add 0 (year_figures md_purchase_value y months rows) \<and>
      adds_exact add 0 (year_figures md_sale_qty y months rows) \<and>
      adds_exact add 0 (year_figures md_sale_value y months rows) \<and>
      adds_exact add 0 (year_figures md_pos_qty y months rows) \<and>
      adds_exact add 0 (year_figures md_pos_value y months rows))"

section \<open>Statements about the Product Selector\<close>

text \<open>The template of the variant has at least one phantom bill of materials: a kit.\<close>

definition has_phantom_bom :: "'n env \<Rightarrow> 'n product_product \<Rightarrow> bool" where
  "has_phantom_bom env p =
     list_ex (\<lambda>b. bom_type b = ''phantom'' \<and> bom_product_tmpl_id b = p_product_tmpl_id p)
       (boms env)"

section \<open>Statements about Stock-at-date\<close>

text \<open>
  The balance as the specification words it: over the done moves of the product dated on
  or before the date, a move into the internal set adds its quantity, a move out of it
  subtracts its quantity, and a move with both ends inside or both ends outside adds 0.
\<close>

definition claimed_stock_at_date :: "'n env \<Rightarrow> int \<Rightarrow> date \<Rightarrow> int list \<Rightarrow> rat" where
  "claimed_stock_at_date env product_id as_of location_ids =
     sum_list (map
       (\<lambda>sm. if sm_location_dest_id sm \<in> set location_ids \<and>
                 sm_location_id sm \<notin> set location_ids then sm_product_qty sm
              else if sm_location_id sm \<in> set location_ids \<and>
                      sm_location_dest_id sm \<notin> set location_ids then - sm_product_qty sm
              else 0)
       (filter (\<lambda>sm. sm_product_id sm = product_id \<and> sm_state sm = ''done'' \<and>
                     date_le (sm_date sm) as_of)
          (stock_moves env)))"

section \<open>Statements about Window-moves\<close>


text \<open>The six flow figures of a monthly row are those of the dictionary \<open>data\<close>.\<close>

definition flows_of :: "move_data \<Rightarrow> month_data \<Rightarrow> bool" where
  "flows_of data row =
     (md_purchase_qty row = purchase_qty data \<and> md_purchase_value row = purchase_value data \<and>
      md_sale_qty row = sale_qty data \<and> md_sale_value row = sale_value data \<and>
      md_pos_qty row = pos_qty data \<and> md_pos_value row = pos_value data)"

section \<open>Statements about report generation\<close>

text \<open>The call ended with the platform's user-facing error.\<close>

definition is_user_error :: "error + 'a \<Rightarrow> bool" where
  "is_user_error r = (case r of Inl (UserError msg) \<Rightarrow> True | _ \<Rightarrow> False)"

text \<open>
  The validation conditions: start date after end date, no product selected, no month, no
  internal location, spreadsheet library missing.
\<close>

definition validation_failure :: "('n::linorder) env \<Rightarrow> wizard \<Rightarrow> bool" where
  "validation_failure env w =
     (date_lt (date_to w) (date_from w) \<or> get_products env w = [] \<or>
      get_months_in_range w = Inr [] \<or> get_location_ids env w = [] \<or> \<not> xlsxwriter env)"

section \<open>Example data\<close>

text \<open>
  The floating-point addition of the example data: the sum rounded to the nearest number
  with a 53-bit significand, a tie going to the even significand, with the smallest
  exponent of the 64-bit format. Sums of magnitude \<open>2 ^ 1024\<close> and more, which the
  format turns into infinity, are outside its range. \<open>binade x\<close> is the exponent of
  the power of two at or below a positive \<open>x\<close>.
\<close>

fun bit_length :: "nat \<Rightarrow> nat" where
  "bit_length n = (if n = 0 then 0 else Suc (bit_length (n div 2)))"

declare bit_length.simps [simp del]

definition pow2 :: "int \<Rightarrow> rat" where
  "pow2 e = (if 0 \<le> e then 2 ^ nat e else 1 / 2 ^ nat (- e))"

definition binade :: "rat \<Rightarrow> int" where
  "binade x =
     (if 1 \<le> x then int (bit_length (nat \<lfloor>x\<rfloor>)) - 1
      else - int (bit_length (nat (\<lceil>1 / x\<rceil> - 1))))"

definition round_half_even :: "rat \<Rightarrow> int" where
  "round_half_even x =
     (let f = \<lfloor>x\<rfloor>; d = x - of_int f
      in if d < 1 / 2 then f else if 1 / 2 < d then f + 1
         else if even f then f else f + 1)"

definition round_double :: "rat \<Rightarrow> rat" where
  "round_double x =
     (if x = 0 then 0
      else
        (let a = \<bar>x\<bar>;
             e = max (binade a - 52) (- 1074);
             m = round_half_even (a / pow2 e)
         in (if x < 0 then - 1 else 1) * of_int m * pow2 e))"

definition double_add :: "rat \<Rightarrow> rat \<Rightarrow> rat" where
  "double_add x y = round_double (x + y)"

text \<open>
  A small data set: the component Bolt (product 1), the kit Assembly kit (product 2,
  two bolts per kit, a phantom bill on its template) and Anchor (product 3); one internal
  location; a receipt of 10 bolts on 2024-01-15, a purchase of 10 at 100, a sale of 4
  bolts at 150 on 2024-01-20, a sale of 3 kits at 500 on 2024-01-05 and a point-of-sale
  line of 1 bolt on 2024-02-20. The unit 2 is the dozen of unit 1.
\<close>

definition demo_env :: "string env" where
  "demo_env =
     \<lparr>xlsxwriter = True,
      products =
        [\<lparr>p_id = 1, p_name = ''Bolt'', p_type = ''consu'', p_categ_id = 1, p_product_tmpl_id = 1\<rparr>,
         \<lparr>p_id = 2, p_name = ''Assembly kit'', p_type = ''consu'', p_categ_id = 1,
          p_product_tmpl_id = 2\<rparr>,
         \<lparr>p_id = 3, p_name = ''Anchor'', p_type = ''consu'', p_categ_id = 2,
          p_product_tmpl_id = 3\<rparr>],
      categ_child_of = (\<lambda>c ids. c \<in> set ids),
      boms = [\<lparr>bom_id = 1, bom_type = ''phantom'', bom_product_tmpl_id = 2,
               bom_product_id = None\<rparr>],
      bom_lines = [\<lparr>bl_product_id = 1, bl_bom_id = 1, bl_product_qty = 2,
                    bl_product_uom_id = 1, bl_component_uom_id = 1\<rparr>],
      uom_compute_quantity = (\<lambda>u q t. if u = 2 \<and> t = 1 then q * 12 else q),
      float_add = double_add,
      locations = [\<lparr>loc_id = 1, loc_usage = ''internal'', loc_warehouse_id = Some 1\<rparr>,
                   \<lparr>loc_id = 2, loc_usage = ''supplier'', loc_warehouse_id = None\<rparr>],
      stock_moves =
        [\<lparr>sm_product_id = 1, sm_state = ''done'',
          sm_date = \<lparr>year = 2024, month = 1, day = 15\<rparr>,
          sm_location_id = 2, sm_location_dest_id = 1, sm_product_qty = 10,
          sm_price_unit = Some 100, sm_purchase_price_unit = Some 100\<rparr>],
      purchase_lines =
        [\<lparr>pol_product_id = 1, pol_order_state = ''purchase'',
          pol_date_approve = \<lparr>year = 2024, month = 1, day = 15\<rparr>,
          pol_qty_received = 10, pol_price_unit = 100, pol_uom_factor = 1,
          pol_prod_uom_factor = 1\<rparr>],
      sale_lines =
        [\<lparr>sol_product_id = 1, sol_order_state = ''sale'',
          sol_date_order = \<lparr>year = 2024, month = 1, day = 20\<rparr>,
          sol_qty_delivered = 4, sol_price_unit = 150, sol_uom_factor = 1,
          sol_prod_uom_factor = 1\<rparr>,
         \<lparr>sol_product_id = 2, sol_order_state = ''sale'',
          sol_date_order = \<lparr>year = 2024, month = 1, day = 5\<rparr>,
          sol_qty_delivered = 3, sol_price_unit = 500, sol_uom_factor = 1,
          sol_prod_uom_factor = 1\<rparr>],
      pos_lines =
        [\<lparr>posl_product_id = 1, posl_order_state = ''paid'',
          posl_date_order = \<lparr>year = 2024, month = 2, day = 20\<rparr>,
          posl_qty = 1, posl_price_subtotal_incl = 30\<rparr>]\<rparr>"

text \<open>
  Two phantom bills for the same kit template: one for the template (2 dozen bolts), one
  for its variant 2 (5 bolts).
\<close>

definition dozen_line :: mrp_bom_line where
  "dozen_line = \<lparr>bl_product_id = 1, bl_bom_id = 1, bl_product_qty = 2,
                  bl_product_uom_id = 2, bl_component_uom_id = 1\<rparr>"

definition variant_line :: mrp_bom_line where
  "variant_line = \<lparr>bl_product_id = 1, bl_bom_id = 2, bl_product_qty = 5,
                    bl_product_uom_id = 1, bl_component_uom_id = 1\<rparr>"

definition two_bills_env :: "string env" where
  "two_bills_env =
     demo_env
       \<lparr>products :=
          [\<lparr>p_id = 1, p_name = ''Bolt'', p_type = ''consu'', p_categ_id = 1,
            p_product_tmpl_id = 1\<rparr>,
           \<lparr>p_id = 2, p_name = ''Kit, red'', p_type = ''consu'', p_categ_id = 1,
            p_product_tmpl_id = 2\<rparr>,
           \<lparr>p_id = 3, p_name = ''Kit, blue'', p_type = ''consu'', p_categ_id = 1,
            p_product_tmpl_id = 2\<rparr>],
        boms :=
          [\<lparr>bom_id = 1, bom_type = ''phantom'', bom_product_tmpl_id = 2, bom_product_id = None\<rparr>,
           \<lparr>bom_id = 2, bom_type = ''phantom'', bom_product_tmpl_id = 2,
            bom_product_id = Some 2\<rparr>],
        bom_lines := [dozen_line, variant_line]\<rparr>"

text \<open>The three products of the data set, by name.\<close>

definition bolt :: "string product_product" where
  "bolt = \<lparr>p_id = 1, p_name = ''Bolt'', p_type = ''consu'', p_categ_id = 1, p_product_tmpl_id = 1\<rparr>"

definition assembly_kit :: "string product_product" where
  "assembly_kit = \<lparr>p_id = 2, p_name = ''Assembly kit'', p_type = ''consu'', p_categ_id = 1,
          p_product_tmpl_id = 2\<rparr>"

definition anchor :: "string product_product" where
  "anchor = \<lparr>p_id = 3, p_name = ''Anchor'', p_type = ''consu'', p_categ_id = 2,
          p_product_tmpl_id = 3\<rparr>"

text \<open>
  A request from 2024-01-15 to 2024-02-10, its two month buckets, and the rows and the
  yearly totals of product 1 for them.
\<close>

definition demo_wizard :: wizard where
  "demo_wizard = wiz \<lparr>year = 2024, month = 1, day = 15\<rparr> \<lparr>year = 2024, month = 2, day = 10\<rparr>"

definition january :: month_bucket where
  "january = \<lparr>m_date = \<lparr>year = 2024, month = 1, day = 1\<rparr>, m_year = 2024, m_month = 1,
               m_start = \<lparr>year = 2024, month = 1, day = 1\<rparr>,
               m_end = \<lparr>year = 2024, month = 1, day = 31\<rparr>\<rparr>"

definition february :: month_bucket where
  "february = \<lparr>m_date = \<lparr>year = 2024, month = 2, day = 1\<rparr>, m_year = 2024, m_month = 2,
                m_start = \<lparr>year = 2024, month = 2, day = 1\<rparr>,
                m_end = \<lparr>year = 2024, month = 2, day = 29\<rparr>\<rparr>"

definition january_row :: month_data where
  "january_row = \<lparr>md_opening_qty = 0, md_purchase_qty = 10, md_purchase_value = 1000,
                   md_sale_qty = 10, md_sale_value = 3600, md_pos_qty = 0, md_pos_value = 0,
                   md_closing_qty = 10\<rparr>"

definition february_row :: month_data where
  "february_row = \<lparr>md_opening_qty = 10, md_purchase_qty = 0, md_purchase_value = 0,
                    md_sale_qty = 0, md_sale_value = 0, md_pos_qty = 1, md_pos_value = 30,
                    md_closing_qty = 10\<rparr>"

definition totals_2024 :: year_totals where
  "totals_2024 = \<lparr>total_purchase_qty = 10, total_purchase_value = 1000, total_sale_qty = 10,
                   total_sale_value = 3600, total_pos_qty = 1, total_pos_value = 30\<rparr>"

text \<open>One done move of 5 bolts between two internal locations.\<close>

definition transfer_env :: "string env" where
  "transfer_env =
     demo_env
       \<lparr>locations := [\<lparr>loc_id = 1, loc_usage = ''internal'', loc_warehouse_id = Some 1\<rparr>,
                      \<lparr>loc_id = 3, loc_usage = ''internal'', loc_warehouse_id = Some 1\<rparr>],
        stock_moves :=
          [\<lparr>sm_product_id = 1, sm_state = ''done'',
            sm_date = \<lparr>year = 2024, month = 1, day = 10\<rparr>,
            sm_location_id = 1, sm_location_dest_id = 3, sm_product_qty = 5,
            sm_price_unit = None, sm_purchase_price_unit = None\<rparr>]\<rparr>"

text \<open>The component twice in the bill of the same kit: 2 and 5 bolts.\<close>

definition first_line :: mrp_bom_line where
  "first_line = \<lparr>bl_product_id = 1, bl_bom_id = 1, bl_product_qty = 2,
                  bl_product_uom_id = 1, bl_component_uom_id = 1\<rparr>"

definition second_line :: mrp_bom_line where
  "second_line = \<lparr>bl_product_id = 1, bl_bom_id = 1, bl_product_qty = 5,
                   bl_product_uom_id = 1, bl_component_uom_id = 1\<rparr>"

definition repeated_line_env :: "string env" where
  "repeated_line_env = demo_env\<lparr>bom_lines := [first_line, second_line]\<rparr>"


text \<open>
  Goods sold by weight at the point of sale: 0.1, 0.2 and 0.3 in January, February and
  March 2024, written as the floating-point numbers these decimals are read as; the
  request for that quarter, its third bucket, and the rows and totals of product 1.
\<close>

definition tenth :: rat where
  "tenth = 3602879701896397 / 2 ^ 55"

definition fifth :: rat where
  "fifth = 3602879701896397 / 2 ^ 54"

definition three_tenths :: rat where
  "three_tenths = 5404319552844595 / 2 ^ 54"

definition rounded_three_tenths :: rat where
  "rounded_three_tenths = 5404319552844596 / 2 ^ 54"

definition rounded_six_tenths :: rat where
  "rounded_six_tenths = 5404319552844596 / 2 ^ 53"

definition weighed_env :: "string env" where
  "weighed_env =
     demo_env
       \<lparr>purchase_lines := [],
        sale_lines := [],
        pos_lines :=
          [\<lparr>posl_product_id = 1, posl_order_state = ''paid'',
            posl_date_order = \<lparr>year = 2024, month = 1, day = 10\<rparr>,
            posl_qty = tenth, posl_price_subtotal_incl = 1\<rparr>,
           \<lparr>posl_product_id = 1, posl_order_state = ''paid'',
            posl_date_order = \<lparr>year = 2024, month = 2, day = 10\<rparr>,
            posl_qty = fifth, posl_price_subtotal_incl = 2\<rparr>,
           \<lparr>posl_product_id = 1, posl_order_state = ''paid'',
            posl_date_order = \<lparr>year = 2024, month = 3, day = 10\<rparr>,
            posl_qty = three_tenths, posl_price_subtotal_incl = 3\<rparr>]\<rparr>"

definition quarter_wizard :: wizard where
  "quarter_wizard =
     wiz \<lparr>year = 2024, month = 1, day = 1\<rparr> \<lparr>year = 2024, month = 3, day = 31\<rparr>"

definition march :: month_bucket where
  "march = \<lparr>m_date = \<lparr>year = 2024, month = 3, day = 1\<rparr>, m_year = 2024, m_month = 3,
             m_start = \<lparr>year = 2024, month = 3, day = 1\<rparr>,
             m_end = \<lparr>year = 2024, month = 3, day = 31\<rparr>\<rparr>"

definition weighed_rows :: "month_data list" where
  "weighed_rows =
     [\<lparr>md_opening_qty = 0, md_purchase_qty = 0, md_purchase_value = 0, md_sale_qty = 0,
       md_sale_value = 0, md_pos_qty = tenth, md_pos_value = 1, md_closing_qty = 10\<rparr>,
      \<lparr>md_opening_qty = 10, md_purchase_qty = 0, md_purchase_value = 0, md_sale_qty = 0,
       md_sale_value = 0, md_pos_qty = fifth, md_pos_value = 2, md_closing_qty = 10\<rparr>,
      \<lparr>md_opening_qty = 10, md_purchase_qty = 0, md_purchase_value = 0, md_sale_qty = 0,
       md_sale_value = 0, md_pos_qty = three_tenths, md_pos_value = 3, md_closing_qty = 10\<rparr>]"

definition weighed_totals :: year_totals where
  "weighed_totals =
     \<lparr>total_purchase_qty = 0, total_purchase_value = 0, total_sale_qty = 0,
      total_sale_value = 0, total_pos_qty = rounded_six_tenths, total_pos_value = 6\<rparr>"

text \<open>No location at all, and a request for the last day the date type has.\<close>

definition no_locations_env :: "string env" where
  "no_locations_env = demo_env\<lparr>locations := []\<rparr>"

definition last_day_wizard :: wizard where
  "last_day_wizard =
     wiz \<lparr>year = 9999, month = 12, day = 31\<rparr> \<lparr>year = 9999, month = 12, day = 31\<rparr>"

section \<open>Properties of the Time Bucketer\<close>

lemma days_in_month_ge: "28 \<le> days_in_month y m"
  by (simp add: days_in_month_def)

lemma plus_one_month_first:
  assumes "first_of_month c" "month_index c \<le> 12 * 9999 + 10"
  shows "\<exists>n. plus_one_month c = Inr n \<and> first_of_month n \<and> month_index n = month_index c + 1
      \<and> minus_one_day n = Inr \<lparr>year = year c, month = month c, day = days_in_month (year c) (month c)\<rparr>"
  using assms days_in_month_ge[of "year c" "month c + 1"] days_in_month_ge[of "year c + 1" 1]
  by (auto simp: first_of_month_def plus_one_month_def date_ctor_def valid_date_def
      month_index_def Let_def MAXYEAR_def MINYEAR_def minus_one_day_def days_in_month_def)

lemma date_le_index:
  "first_of_month c \<Longrightarrow> first_of_month e \<Longrightarrow> date_le c e \<longleftrightarrow> month_index c \<le> month_index e"
  by (auto simp: first_of_month_def date_le_def month_index_def valid_date_def)

lemma bucket_at_index:
  "first_of_month c \<Longrightarrow>
   bucket_at (month_index c) = \<lparr>m_date = c, m_year = year c, m_month = month c, m_start = c,
      m_end = \<lparr>year = year c, month = month c, day = days_in_month (year c) (month c)\<rparr>\<rparr>"
  by (simp add: bucket_at_def first_of_month_def valid_date_def month_index_def)

lemma months_loop_closed_form:
  "first_of_month c \<Longrightarrow> first_of_month e \<Longrightarrow> month_index e \<le> 12 * 9999 + 10 \<Longrightarrow>
   months_loop acc c e = Inr (acc @ map bucket_at [month_index c..month_index e])"
proof (induction acc c e rule: months_loop.induct)
  case (1 months current end_d)
  show ?case
  proof (cases "date_le current end_d")
    case False
    then have "month_index end_d < month_index current"
      using 1 by (simp add: date_le_index)
    then show ?thesis using False by (subst months_loop.simps) simp
  next
    case True
    then have le: "month_index current \<le> month_index end_d"
      using 1 by (simp add: date_le_index)
    then obtain n where n: "plus_one_month current = Inr n" "first_of_month n"
      "month_index n = month_index current + 1"
      "minus_one_day n = Inr \<lparr>year = year current, month = month current,
          day = days_in_month (year current) (month current)\<rparr>"
      using plus_one_month_first[of current] 1(2,4) by auto
    have IH: "months_loop (months @ [bucket_at (month_index current)]) n end_d
        = Inr ((months @ [bucket_at (month_index current)]) @ map bucket_at [month_index n..month_index end_d])"
      using 1(1)[OF True n(1) n(4)] n(2) 1(3,4) 1(2) by (simp add: bucket_at_index)
    show ?thesis
      using True n IH 1(2) le
      by (subst months_loop.simps) (simp add: bucket_at_index upto_rec1[of "month_index current"])
  qed
qed

lemma next_month_bucket_at: "next_month (bucket_at k) (bucket_at (k + 1))"
  unfolding next_month_def bucket_at_def by (simp; presburger)

lemma earlier_month_bucket_at: "k < l \<Longrightarrow> earlier_month (bucket_at k) (bucket_at l)"
proof -
  assume "k < l"
  then have "k div 12 < l div 12 \<or> (k div 12 = l div 12 \<and> k mod 12 < l mod 12)"
    by presburger
  then show ?thesis by (auto simp add: earlier_month_def bucket_at_def)
qed

lemma calendar_month_bucket_at: "calendar_month (bucket_at k)"
  by (simp add: calendar_month_def bucket_at_def)

lemma successively_upto_step:
  "(\<And>k. P (f k) (f (k + 1))) \<Longrightarrow> successively P (map f [i..j])"
proof (induction "nat (j + 1 - i)" arbitrary: i)
  case 0
  then have "j < i" by simp
  then show ?case by simp
next
  case (Suc n)
  then have le: "i \<le> j" by simp
  from Suc have IH: "successively P (map f [i + 1..j])" by simp
  show ?case
  proof (cases "i + 1 \<le> j")
    case True
    then show ?thesis using IH Suc.prems
      by (simp add: upto_rec1[OF le] upto_rec1[OF True])
  next
    case False
    then have "i = j" using le by simp
    then show ?thesis by simp
  qed
qed

lemma months_in_range_closed_form:
  assumes "valid_date (date_from w)" "valid_date (date_to w)"
    and "\<not> (year (date_to w) = 9999 \<and> month (date_to w) = 12)"
  shows "get_months_in_range w =
     Inr (map bucket_at [month_index (date_from w)..month_index (date_to w)])"
proof -
  let ?c = "\<lparr>year = year (date_from w), month = month (date_from w), day = 1\<rparr>"
  let ?e = "\<lparr>year = year (date_to w), month = month (date_to w), day = 1\<rparr>"
  have c: "date_replace_day (date_from w) 1 = Inr ?c" "first_of_month ?c"
    using assms(1) days_in_month_ge[of "year (date_from w)" "month (date_from w)"]
    by (simp_all add: date_replace_day_def date_ctor_def valid_date_def first_of_month_def)
  have e: "date_replace_day (date_to w) 1 = Inr ?e" "first_of_month ?e"
    using assms(2) days_in_month_ge[of "year (date_to w)" "month (date_to w)"]
    by (simp_all add: date_replace_day_def date_ctor_def valid_date_def first_of_month_def)
  have "month_index ?e \<le> 12 * 9999 + 10"
    using assms(2,3) by (auto simp: month_index_def valid_date_def MAXYEAR_def)
  then have "months_loop [] ?c ?e = Inr ([] @ map bucket_at [month_index ?c..month_index ?e])"
    using c(2) e(2) by (rule months_loop_closed_form[rotated 2])
  then show ?thesis
    using c(1) e(1) by (simp add: get_months_in_range_def month_index_def)
qed

text \<open>
  C4, as amended. For every valid date range (\<open>date_from \<le> date_to\<close>) whose end is
  before December 9999, \<open>_get_months_in_range\<close> returns a non-empty list of month
  buckets, in strictly increasing (year, month) order, each bucket the calendar month
  right after the one before it, the first containing \<open>date_from\<close>, the last containing
  \<open>date_to\<close>, and each bucket running from day 1 to the last calendar day of its month.
\<close>

theorem months_in_range_buckets:
  assumes "valid_date (date_from w)" and "valid_date (date_to w)"
    and "date_le (date_from w) (date_to w)"
    and "\<not> (year (date_to w) = 9999 \<and> month (date_to w) = 12)"
  shows "\<exists>ms. get_months_in_range w = Inr ms \<and> ms \<noteq> [] \<and>
           sorted_wrt earlier_month ms \<and> successively next_month ms \<and>
           bucket_contains (hd ms) (date_from w) \<and> bucket_contains (last ms) (date_to w) \<and>
           list_all calendar_month ms"
proof -
  let ?i = "month_index (date_from w)" and ?j = "month_index (date_to w)"
  let ?ms = "map bucket_at [?i..?j]"
  have eq: "get_months_in_range w = Inr ?ms"
    using assms(1,2,4) by (rule months_in_range_closed_form)
  have le: "?i \<le> ?j"
    using assms(1,2,3) by (auto simp: date_le_def month_index_def valid_date_def)
  then have ne: "?ms \<noteq> []" by simp
  have srt: "sorted_wrt earlier_month ?ms"
    by (simp add: sorted_wrt_map sorted_wrt_mono_rel[OF _ sorted_wrt_upto] earlier_month_bucket_at)
  have succ: "successively next_month ?ms"
    by (rule successively_upto_step) (rule next_month_bucket_at)
  have hd: "hd ?ms = bucket_at ?i"
    using le by (simp add: upto_rec1 )
  have lst: "last ?ms = bucket_at ?j"
    using le by (simp add: upto_rec2)
  have c1: "bucket_contains (bucket_at ?i) (date_from w)"
    using assms(1)
    by (simp add: bucket_contains_def bucket_at_def date_le_def month_index_def valid_date_def)
  have c2: "bucket_contains (bucket_at ?j) (date_to w)"
    using assms(2)
    by (simp add: bucket_contains_def bucket_at_def date_le_def month_index_def valid_date_def)
  have cal: "list_all calendar_month ?ms"
    by (simp add: list_all_iff calendar_month_bucket_at)
  show ?thesis
    using eq ne srt succ hd lst c1 c2 cal by simp
qed

theorem months_in_range_buckets_witness:
  "valid_date \<lparr>year = 2024, month = 1, day = 15\<rparr> \<and>
   valid_date \<lparr>year = 2024, month = 3, day = 10\<rparr> \<and>
   date_le \<lparr>year = 2024, month = 1, day = 15\<rparr> \<lparr>year = 2024, month = 3, day = 10\<rparr> \<and>
   (\<exists>ms. get_months_in_range
            (wiz \<lparr>year = 2024, month = 1, day = 15\<rparr> \<lparr>year = 2024, month = 3, day = 10\<rparr>)
          = Inr ms \<and> ms \<noteq> [] \<and>
        sorted_wrt earlier_month ms \<and> successively next_month ms \<and>
        bucket_contains (hd ms) \<lparr>year = 2024, month = 1, day = 15\<rparr> \<and>
        bucket_contains (last ms) \<lparr>year = 2024, month = 3, day = 10\<rparr> \<and>
        list_all calendar_month ms)"
  using months_in_range_buckets
    [of "wiz \<lparr>year = 2024, month = 1, day = 15\<rparr> \<lparr>year = 2024, month = 3, day = 10\<rparr>"]
  by (simp add: wiz_def valid_date_def MINYEAR_def MAXYEAR_def days_in_month_def isleap_def
      date_le_def)

text \<open>
  C4 as stated fails for a range that ends in December 9999: the loop adds one month to
  9999-12-01, and the date type has no year 10000.
\<close>

theorem months_in_range_overflow:
  "get_months_in_range (wiz \<lparr>year = 9999, month = 12, day = 31\<rparr> \<lparr>year = 9999, month = 12, day = 31\<rparr>)
     = Inl ValueError"
  by (simp add: get_months_in_range_def wiz_def date_replace_day_def date_ctor_def valid_date_def
      MINYEAR_def MAXYEAR_def days_in_month_def months_loop.simps date_le_def plus_one_month_def)

section \<open>Properties of the Kit Resolver\<close>

lemma resolve_line_fold:
  "resolve_line env line result =
     fold (\<lambda>k r. AList.update k (line_component_qty env line) r) (line_kit_ids env line) result"
  by (simp add: resolve_line_def line_kit_ids_def split: option.splits)

lemma map_of_fold_update:
  "map_of (fold (\<lambda>k r. AList.update k q r) ks r) k' =
     (if k' \<in> set ks then Some q else map_of r k')"
  by (induction ks arbitrary: r) (auto simp: update_conv')

lemma keys_fold_update:
  "fst ` set (fold (\<lambda>k r. AList.update k q r) ks r) = set ks \<union> fst ` set r"
  by (induction ks arbitrary: r) (simp_all add: dom_update Un_ac)

lemma distinct_fold_update:
  "distinct (map fst r) \<Longrightarrow> distinct (map fst (fold (\<lambda>k r. AList.update k q r) ks r))"
  by (induction ks arbitrary: r) (auto simp: distinct_update)

lemma map_of_resolve_line:
  "map_of (resolve_line env line r) k =
     (if k \<in> set (line_kit_ids env line) then Some (line_component_qty env line) else map_of r k)"
  by (simp add: resolve_line_fold map_of_fold_update)

lemma map_of_fold_resolve:
  "map_of (fold (resolve_line env) ls r) k =
     (case filter (\<lambda>l. k \<in> set (line_kit_ids env l)) ls of
        [] \<Rightarrow> map_of r k
      | l # rest \<Rightarrow> Some (line_component_qty env (last (l # rest))))"
proof (induction ls arbitrary: r)
  case Nil
  show ?case by simp
next
  case (Cons a ls)
  show ?case
    by (cases "filter (\<lambda>l. k \<in> set (line_kit_ids env l)) ls")
       (simp_all add: Cons.IH map_of_resolve_line)
qed

lemma keys_fold_resolve:
  "fst ` set (fold (resolve_line env) ls r) =
     (\<Union>l \<in> set ls. set (line_kit_ids env l)) \<union> fst ` set r"
  by (induction ls arbitrary: r) (simp_all add: resolve_line_fold keys_fold_update Un_ac)

lemma distinct_fold_resolve:
  "distinct (map fst r) \<Longrightarrow> distinct (map fst (fold (resolve_line env) ls r))"
  by (induction ls arbitrary: r) (auto simp: resolve_line_fold distinct_fold_update)

lemma two_bills_lines:
  "component_lines two_bills_env 1 = [dozen_line, variant_line]"
  "line_kit_ids two_bills_env dozen_line = [2, 3]"
  "line_kit_ids two_bills_env variant_line = [2]"
  "line_component_qty two_bills_env dozen_line = 24"
  "line_component_qty two_bills_env variant_line = 5"
  by (simp_all add: component_lines_def line_kit_ids_def line_component_qty_def two_bills_env_def
      demo_env_def dozen_line_def variant_line_def product_variant_ids_def)

lemma two_bills_result: "get_phantom_bom_components two_bills_env 1 = [(2, 5), (3, 24)]"
  by (simp add: get_phantom_bom_components_def two_bills_lines resolve_line_fold)

text \<open>
  C10. When one or more of the component's phantom lines reach the same kit product (a
  template-level bill whose variants include the product of a variant-level bill
  included), the mapping holds for that kit the multiplier of the last of these lines in
  processing order, and the kit is a key only once: the entry is overwritten, not summed.
\<close>

theorem kit_resolver_last_line_wins:
  assumes "lines_reaching env product_id kit_id \<noteq> []"
  shows "map_of (get_phantom_bom_components env product_id) kit_id =
           Some (line_component_qty env (last (lines_reaching env product_id kit_id))) \<and>
         distinct (map fst (get_phantom_bom_components env product_id))"
  using assms
  by (simp add: get_phantom_bom_components_def map_of_fold_resolve lines_reaching_def
      distinct_fold_resolve split: list.splits)

theorem kit_resolver_last_line_wins_witness:
  "lines_reaching two_bills_env 1 2 = [dozen_line, variant_line] \<and>
   map_of (get_phantom_bom_components two_bills_env 1) 2 = Some 5 \<and>
   get_phantom_bom_components two_bills_env 1 = [(2, 5), (3, 24)]"
  using kit_resolver_last_line_wins [of two_bills_env 1 2]
  by (simp add: lines_reaching_def two_bills_lines two_bills_result)

text \<open>
  Where a kit is reached by exactly one of the component's phantom lines, the mapping
  holds that line's quantity, converted to the component's own unit when the units differ;
  the keys of the mapping are the kits the lines are attributed to.
\<close>

lemma kit_resolver_single_line:
  "fst ` set (get_phantom_bom_components env product_id) =
     (\<Union>l \<in> set (component_lines env product_id). set (line_kit_ids env l)) \<and>
   (\<forall>(l::mrp_bom_line) k. lines_reaching env product_id k = [l] \<longrightarrow>
      map_of (get_phantom_bom_components env product_id) k =
        Some (if bl_product_uom_id l \<noteq> bl_component_uom_id l
              then uom_compute_quantity env (bl_product_uom_id l) (bl_product_qty l)
                     (bl_component_uom_id l)
              else bl_product_qty l)) \<and>
   (\<forall>(l::mrp_bom_line) (b::mrp_bom).
      find (\<lambda>b. bom_id b = bl_bom_id l) (boms env) = Some b \<and> bom_type b = ''phantom'' \<longrightarrow>
      line_kit_ids env l =
        (case bom_product_id b of Some kit \<Rightarrow> [kit]
         | None \<Rightarrow> product_variant_ids env (bom_product_tmpl_id b)))"
proof (intro conjI allI impI)
  show "fst ` set (get_phantom_bom_components env product_id) =
     (\<Union>l \<in> set (component_lines env product_id). set (line_kit_ids env l))"
    by (simp add: get_phantom_bom_components_def keys_fold_resolve)
next
  fix l :: mrp_bom_line and k
  assume "lines_reaching env product_id k = [l]"
  then show "map_of (get_phantom_bom_components env product_id) k =
        Some (if bl_product_uom_id l \<noteq> bl_component_uom_id l
              then uom_compute_quantity env (bl_product_uom_id l) (bl_product_qty l)
                     (bl_component_uom_id l)
              else bl_product_qty l)"
    by (simp add: get_phantom_bom_components_def map_of_fold_resolve lines_reaching_def
        line_component_qty_def)
next
  fix l :: mrp_bom_line and b :: mrp_bom
  assume "find (\<lambda>b. bom_id b = bl_bom_id l) (boms env) = Some b \<and> bom_type b = ''phantom''"
  then show "line_kit_ids env l =
        (case bom_product_id b of Some kit \<Rightarrow> [kit]
         | None \<Rightarrow> product_variant_ids env (bom_product_tmpl_id b))"
    by (simp add: line_kit_ids_def)
qed

lemma kit_resolver_single_line_example:
  "lines_reaching two_bills_env 1 3 = [dozen_line] \<and>
   map_of (get_phantom_bom_components two_bills_env 1) 3 = Some 24 \<and>
   fst ` set (get_phantom_bom_components two_bills_env 1) = {2, 3}"
proof -
  have reach: "lines_reaching two_bills_env 1 3 = [dozen_line]"
    by (simp add: lines_reaching_def two_bills_lines)
  have "map_of (get_phantom_bom_components two_bills_env 1) 3 =
          Some (line_component_qty two_bills_env dozen_line)"
    using kit_resolver_single_line [of two_bills_env 1] reach
    by (simp add: line_component_qty_def)
  moreover have "fst ` set (get_phantom_bom_components two_bills_env 1) = {2, 3}"
    using kit_resolver_single_line [of two_bills_env 1] by (auto simp: two_bills_lines)
  ultimately show ?thesis using reach by (simp add: two_bills_lines)
qed

text \<open>
  C2. The Kit Resolver is to map a kit to the quantity of the component in the kit, as
  its docstring says. With the component twice in the bill of kit 2, 2 and 5 per kit, that
  quantity is 7, and the mapping returned holds 5, the quantity of the line processed
  last.
\<close>

theorem kit_resolver_repeated_component:
  "component_lines repeated_line_env 1 = [first_line, second_line] \<and>
   line_kit_ids repeated_line_env first_line = [2] \<and>
   line_kit_ids repeated_line_env second_line = [2] \<and>
   line_component_qty repeated_line_env first_line = 2 \<and>
   line_component_qty repeated_line_env second_line = 5 \<and>
   claimed_kit_quantity repeated_line_env 1 2 = 7 \<and>
   get_phantom_bom_components repeated_line_env 1 = [(2, 5)]"
proof -
  have l: "component_lines repeated_line_env 1 = [first_line, second_line]"
    "line_kit_ids repeated_line_env first_line = [2]"
    "line_kit_ids repeated_line_env second_line = [2]"
    "line_component_qty repeated_line_env first_line = 2"
    "line_component_qty repeated_line_env second_line = 5"
    by (simp_all add: component_lines_def line_kit_ids_def line_component_qty_def
        repeated_line_env_def demo_env_def first_line_def second_line_def product_variant_ids_def)
  then show ?thesis
    by (simp add: get_phantom_bom_components_def resolve_line_fold claimed_kit_quantity_def
        lines_reaching_def)
qed

section \<open>Properties of the kit loops\<close>


lemma demo_kits: "get_phantom_bom_components demo_env 1 = [(2, 2)]"
  by (simp add: get_phantom_bom_components_def component_lines_def resolve_line_def demo_env_def
      product_variant_ids_def line_component_qty_def)

lemma demo_sales_jan:
  "sale_rows demo_env 1 \<lparr>year = 2024, month = 1, day = 1\<rparr> \<lparr>year = 2024, month = 1, day = 31\<rparr>
     = [sale_lines demo_env ! 0]"
  "sale_rows demo_env 2 \<lparr>year = 2024, month = 1, day = 1\<rparr> \<lparr>year = 2024, month = 1, day = 31\<rparr>
     = [sale_lines demo_env ! 1]"
  by (simp_all add: sale_rows_def demo_env_def in_window_def date_le_def)

lemma demo_data_jan:
  "get_stock_moves_data demo_env
     (wiz \<lparr>year = 2024, month = 1, day = 15\<rparr> \<lparr>year = 2024, month = 2, day = 10\<rparr>) 1
     \<lparr>year = 2024, month = 1, day = 1\<rparr> \<lparr>year = 2024, month = 1, day = 31\<rparr> [1] =
   Inr \<lparr>qty_in = 10, qty_out = 0, value_in = 1000, value_out = 0,
        purchase_qty = 10, purchase_value = 1000, sale_qty = 10, sale_value = 3600,
        pos_qty = 0, pos_value = 0\<rparr>"
  apply (simp add: get_stock_moves_data_def demo_kits Let_def wiz_def)
  apply (simp add: query_incoming_def query_outgoing_def query_purchase_def purchase_rows_def
      query_sale_def sale_qty_sum_def sale_value_sum_def demo_sales_jan query_pos_def pos_rows_def
      in_window_def date_le_def)
  apply (simp add: demo_env_def)
  done

section \<open>Properties of the month loop\<close>

lemma year_figures_Nil [simp]: "year_figures f y [] [] = []"
  by (simp add: year_figures_def)

lemma year_figures_Cons [simp]:
  "year_figures f y (m # ms) (r # rs) =
     (if m_year m = y then f r # year_figures f y ms rs else year_figures f y ms rs)"
  by (simp add: year_figures_def)

lemma foldl_adds_exact: "adds_exact add a xs \<Longrightarrow> foldl add a xs = a + sum_list xs"
proof (induction xs arbitrary: a)
  case Nil
  then show ?case by simp
next
  case (Cons x xs)
  note c = Cons.prems[unfolded adds_exact.simps]
  note e = c[THEN conjunct1] and r = c[THEN conjunct2]
  from Cons.IH[OF r] e show ?case by (simp add: add.assoc)
qed

lemma accumulate_Inr:
  assumes "accumulate add yt0 y data = Inr yt1"
  shows "map fst yt1 = map fst yt0"
    and "\<exists>t. map_of yt0 y = Some t \<and>
           map_of yt1 = (map_of yt0)(y \<mapsto>
             \<lparr>total_purchase_qty = add (total_purchase_qty t) (purchase_qty data),
              total_purchase_value = add (total_purchase_value t) (purchase_value data),
              total_sale_qty = add (total_sale_qty t) (sale_qty data),
              total_sale_value = add (total_sale_value t) (sale_value data),
              total_pos_qty = add (total_pos_qty t) (pos_qty data),
              total_pos_value = add (total_pos_value t) (pos_value data)\<rparr>)"
proof -
  from assms obtain t where t: "map_of yt0 y = Some t"
    by (auto simp: accumulate_def split: option.splits)
  then have "y \<in> set (map fst yt0)"
    using map_of_eq_None_iff [of yt0 y] by simp
  with assms t show "map fst yt1 = map fst yt0"
    by (auto simp: accumulate_def update_keys simp del: set_map)
  from assms t show "\<exists>t. map_of yt0 y = Some t \<and>
           map_of yt1 = (map_of yt0)(y \<mapsto>
             \<lparr>total_purchase_qty = add (total_purchase_qty t) (purchase_qty data),
              total_purchase_value = add (total_purchase_value t) (purchase_value data),
              total_sale_qty = add (total_sale_qty t) (sale_qty data),
              total_sale_value = add (total_sale_value t) (sale_value data),
              total_pos_qty = add (total_pos_qty t) (pos_qty data),
              total_pos_value = add (total_pos_value t) (pos_value data)\<rparr>)"
    by (auto simp: accumulate_def update_conv')
qed

lemma month_rows_totals:
  "month_rows env w p locs ms yt0 = Inr (rows, yt) \<Longrightarrow>
   length rows = length ms \<and> map fst yt = map fst yt0 \<and>
   (\<forall>y t0. map_of yt0 y = Some t0 \<longrightarrow>
      (\<exists>t. map_of yt y = Some t \<and> totals_offset (float_add env) ms rows y t0 t))"
proof (induction ms arbitrary: yt0 rows yt)
  case Nil
  then show ?case by (auto simp: totals_offset_def)
next
  case (Cons m ms)
  define add where "add = float_add env"
  from Cons.prems obtain opening_q data closing_q yt1 rest where
    acc: "accumulate add yt0 (m_year m) data = Inr yt1" and
    rec: "month_rows env w p locs ms yt1 = Inr rest" and
    rows: "rows = \<lparr>md_opening_qty = opening_q,
              md_purchase_qty = purchase_qty data, md_purchase_value = purchase_value data,
              md_sale_qty = sale_qty data, md_sale_value = sale_value data,
              md_pos_qty = pos_qty data, md_pos_value = pos_value data,
              md_closing_qty = closing_q\<rparr> # fst rest" and
    yt: "yt = snd rest"
    by (auto simp: ebind_Inr_iff add_def)
  from rec have rec': "month_rows env w p locs ms yt1 = Inr (fst rest, yt)"
    using yt by simp
  note IH = Cons.IH[OF rec', folded add_def]
  note A = accumulate_Inr[OF acc]
  have "length rows = length (m # ms) \<and> map fst yt = map fst yt0 \<and>
   (\<forall>y t0. map_of yt0 y = Some t0 \<longrightarrow>
      (\<exists>t. map_of yt y = Some t \<and> totals_offset add (m # ms) rows y t0 t))"
  proof (intro conjI allI impI)
    show "length rows = length (m # ms)" using IH rows by simp
    show "map fst yt = map fst yt0" using IH A(1) by simp
  next
    fix y t0
    assume y: "map_of yt0 y = Some t0"
    from A(2) obtain tm where tm: "map_of yt0 (m_year m) = Some tm"
      and upd: "map_of yt1 = (map_of yt0)(m_year m \<mapsto>
             \<lparr>total_purchase_qty = add (total_purchase_qty tm) (purchase_qty data),
              total_purchase_value = add (total_purchase_value tm) (purchase_value data),
              total_sale_qty = add (total_sale_qty tm) (sale_qty data),
              total_sale_value = add (total_sale_value tm) (sale_value data),
              total_pos_qty = add (total_pos_qty tm) (pos_qty data),
              total_pos_value = add (total_pos_value tm) (pos_value data)\<rparr>)"
      by blast
    show "\<exists>t. map_of yt y = Some t \<and> totals_offset add (m # ms) rows y t0 t"
    proof (cases "m_year m = y")
      case True
      then have "map_of yt1 y = Some
             \<lparr>total_purchase_qty = add (total_purchase_qty t0) (purchase_qty data),
              total_purchase_value = add (total_purchase_value t0) (purchase_value data),
              total_sale_qty = add (total_sale_qty t0) (sale_qty data),
              total_sale_value = add (total_sale_value t0) (sale_value data),
              total_pos_qty = add (total_pos_qty t0) (pos_qty data),
              total_pos_value = add (total_pos_value t0) (pos_value data)\<rparr>"
        using upd tm y by simp
      with IH obtain t where "map_of yt y = Some t" and
        "totals_offset add ms (fst rest) y
             \<lparr>total_purchase_qty = add (total_purchase_qty t0) (purchase_qty data),
              total_purchase_value = add (total_purchase_value t0) (purchase_value data),
              total_sale_qty = add (total_sale_qty t0) (sale_qty data),
              total_sale_value = add (total_sale_value t0) (sale_value data),
              total_pos_qty = add (total_pos_qty t0) (pos_qty data),
              total_pos_value = add (total_pos_value t0) (pos_value data)\<rparr> t"
        by blast
      then show ?thesis using True rows by (simp add: totals_offset_def)
    next
      case False
      then have "map_of yt1 y = Some t0" using upd y by simp
      with IH obtain t where "map_of yt y = Some t" and "totals_offset add ms (fst rest) y t0 t"
        by blast
      then show ?thesis using False rows by (simp add: totals_offset_def)
    qed
  qed
  then show ?case unfolding add_def .
qed

section \<open>Properties of the example floating-point addition\<close>

lemma floor_rat_numeral:
  "\<lfloor>(numeral a / numeral b :: rat)\<rfloor> = numeral a div numeral b"
  using floor_divide_of_int_eq [where ?'a = rat, of "numeral a" "numeral b"] by simp

lemma ceiling_rat_numeral:
  "\<lceil>(numeral a / numeral b :: rat)\<rceil> = - (- numeral a div numeral b)"
  using floor_divide_of_int_eq [where ?'a = rat, of "- numeral a" "numeral b"]
  by (simp add: ceiling_def)

lemma bit_length_values:
  "bit_length (Suc 0) = Suc 0" "bit_length 1 = 1" "bit_length 2 = 2" "bit_length 3 = 2"
  "bit_length 6 = 3" "bit_length 9 = 4" "bit_length 10 = 4" "bit_length 30 = 5"
  "bit_length 1000 = 10" "bit_length 3600 = 12"
  by (simp_all add: bit_length.simps)

lemma round_half_even_numeral: "round_half_even (numeral n) = numeral n"
  by (simp add: round_half_even_def Let_def)

lemma round_half_even_tie: "round_half_even (10808639105689191 / 2) = 5404319552844596"
  by (simp add: round_half_even_def Let_def floor_rat_numeral)

lemma round_double_pos:
  assumes "0 < x" and "binade x = b" and "max (b - 52) (- 1074) = e"
    and "x / pow2 e = y" and "round_half_even y = m"
  shows "round_double x = of_int m * pow2 e"
  using assms by (simp add: round_double_def Let_def)

lemma round_double_small:
  "round_double 0 = 0" "round_double 1 = 1" "round_double 3 = 3" "round_double 6 = 6"
  "round_double 10 = 10" "round_double 30 = 30" "round_double 1000 = 1000"
  "round_double 3600 = 3600"
  by (simp_all add: round_double_def binade_def bit_length_values pow2_def Let_def
      round_half_even_numeral)

lemma double_add_tenth: "double_add 0 tenth = tenth"
proof -
  have "round_double tenth = of_int 7205759403792794 * pow2 (- 56)"
  proof (rule round_double_pos)
    show "0 < tenth" by (simp add: tenth_def)
    show "binade tenth = - 4"
      by (simp add: binade_def tenth_def bit_length_values ceiling_rat_numeral)
    show "max (- 4 - 52) (- 1074) = (- 56 :: int)" by simp
    show "tenth / pow2 (- 56) = 7205759403792794" by (simp add: tenth_def pow2_def)
    show "round_half_even 7205759403792794 = 7205759403792794"
      by (rule round_half_even_numeral)
  qed
  also have "\<dots> = tenth" by (simp add: tenth_def pow2_def)
  finally show ?thesis by (simp add: double_add_def)
qed

lemma double_add_tenth_fifth: "double_add tenth fifth = rounded_three_tenths"
proof -
  have "round_double (tenth + fifth) = of_int 5404319552844596 * pow2 (- 54)"
  proof (rule round_double_pos)
    show "0 < tenth + fifth" by (simp add: tenth_def fifth_def)
    show "binade (tenth + fifth) = - 2"
      by (simp add: binade_def tenth_def fifth_def bit_length_values ceiling_rat_numeral)
    show "max (- 2 - 52) (- 1074) = (- 54 :: int)" by simp
    show "(tenth + fifth) / pow2 (- 54) = 10808639105689191 / 2"
      by (simp add: tenth_def fifth_def pow2_def)
    show "round_half_even (10808639105689191 / 2) = 5404319552844596"
      by (rule round_half_even_tie)
  qed
  also have "\<dots> = rounded_three_tenths" by (simp add: pow2_def rounded_three_tenths_def)
  finally show ?thesis by (simp add: double_add_def)
qed

lemma double_add_three_tenths:
  "double_add rounded_three_tenths three_tenths = rounded_six_tenths"
proof -
  let ?x = "rounded_three_tenths + three_tenths"
  have "round_double ?x = of_int 5404319552844596 * pow2 (- 53)"
  proof (rule round_double_pos)
    show "0 < ?x" by (simp add: three_tenths_def rounded_three_tenths_def)
    show "binade ?x = - 1"
      by (simp add: binade_def three_tenths_def rounded_three_tenths_def bit_length_values
          ceiling_rat_numeral)
    show "max (- 1 - 52) (- 1074) = (- 53 :: int)" by simp
    show "?x / pow2 (- 53) = 10808639105689191 / 2"
      by (simp add: three_tenths_def rounded_three_tenths_def pow2_def)
    show "round_half_even (10808639105689191 / 2) = 5404319552844596"
      by (rule round_half_even_tie)
  qed
  also have "\<dots> = rounded_six_tenths" by (simp add: pow2_def rounded_six_tenths_def)
  finally show ?thesis by (simp add: double_add_def)
qed

section \<open>Month boundaries\<close>

lemma months_loop_past_end:
  "\<not> date_le c e \<Longrightarrow> months_loop acc c e = Inr acc"
  by (subst months_loop.simps) simp

lemma months_loop_overflow:
  "first_of_month c \<Longrightarrow> first_of_month e \<Longrightarrow> month_index e = 12 * 9999 + 11 \<Longrightarrow>
   month_index c \<le> month_index e \<Longrightarrow> months_loop acc c e = Inl ValueError"
proof (induction acc c e rule: months_loop.induct)
  case (1 months current end_d)
  have True: "date_le current end_d" using 1 by (simp add: date_le_index)
  show ?case
  proof (cases "month_index current = 12 * 9999 + 11")
    case True
    then have "year current = 9999 \<and> month current = 12"
      using 1(2) by (auto simp: month_index_def first_of_month_def valid_date_def MAXYEAR_def MINYEAR_def)
    then have "plus_one_month current = Inl ValueError"
      by (simp add: plus_one_month_def date_ctor_def valid_date_def MAXYEAR_def Let_def)
    then show ?thesis using \<open>date_le current end_d\<close> by (subst months_loop.simps) simp
  next
    case False
    then have "month_index current \<le> 12 * 9999 + 10" using 1 by simp
    then obtain n where n: "plus_one_month current = Inr n" "first_of_month n"
      "month_index n = month_index current + 1"
      "minus_one_day n = Inr \<lparr>year = year current, month = month current,
          day = days_in_month (year current) (month current)\<rparr>"
      using plus_one_month_first[of current] 1(2) by auto
    have "months_loop (months @ [bucket_at (month_index current)]) n end_d = Inl ValueError"
      using 1(1)[OF True n(1) n(4)] n(2,3) 1(3,4,5) 1(2) False by (simp add: bucket_at_index)
    then show ?thesis using True n 1(2)
      by (subst months_loop.simps) (simp add: bucket_at_index)
  qed
qed

lemma date_replace_day_Inr:
  "date_replace_day d 1 = Inr c \<Longrightarrow>
   c = \<lparr>year = year d, month = month d, day = 1\<rparr> \<and> valid_date c"
  by (simp add: date_replace_day_def date_ctor_def split: if_splits)

lemma months_in_range_Inr:
  assumes "get_months_in_range w = Inr ms"
  shows "ms = map bucket_at [month_index (date_from w)..month_index (date_to w)] \<and>
         12 \<le> month_index (date_from w)"
proof -
  from assms obtain c e where c: "date_replace_day (date_from w) 1 = Inr c"
    and e: "date_replace_day (date_to w) 1 = Inr e"
    and loop: "months_loop [] c e = Inr ms"
    unfolding get_months_in_range_def ebind_Inr_iff by blast
  note C = date_replace_day_Inr[OF c] and E = date_replace_day_Inr[OF e]
  have fc: "first_of_month c" and fe: "first_of_month e"
    using C E by (auto simp: first_of_month_def)
  have ix: "month_index c = month_index (date_from w)" "month_index e = month_index (date_to w)"
    using C E by (auto simp: month_index_def)
  have y: "12 \<le> month_index c"
    using fc by (simp add: first_of_month_def valid_date_def MINYEAR_def month_index_def)
  have "ms = map bucket_at [month_index c..month_index e]"
  proof (cases "date_le c e")
    case False
    then have "ms = []" using loop by (simp add: months_loop_past_end)
    moreover have "month_index e < month_index c"
      using False fc fe by (simp add: date_le_index)
    ultimately show ?thesis by simp
  next
    case True
    then have le: "month_index c \<le> month_index e" using fc fe by (simp add: date_le_index)
    have "month_index e \<le> 12 * 9999 + 11"
      using fe by (simp add: first_of_month_def month_index_def valid_date_def MAXYEAR_def)
    moreover have "month_index e \<noteq> 12 * 9999 + 11"
    proof
      assume "month_index e = 12 * 9999 + 11"
      from months_loop_overflow[OF fc fe this le, of "[]"] loop show False by simp
    qed
    ultimately have "month_index e \<le> 12 * 9999 + 10" by simp
    from months_loop_closed_form[OF fc fe this, of "[]"] loop show ?thesis by simp
  qed
  then show ?thesis using ix y by simp
qed

lemma succ_div_mod_12:
  fixes k :: int
  shows "(k mod 12 = 11 \<and> (k + 1) mod 12 = 0 \<and> (k + 1) div 12 = k div 12 + 1) \<or>
         (k mod 12 < 11 \<and> (k + 1) mod 12 = k mod 12 + 1 \<and> (k + 1) div 12 = k div 12)"
proof (cases "k mod 12 = 11")
  case True
  have "k + 1 = 12 * (k div 12 + 1) + 0" using True by (simp add: algebra_simps) (metis add.commute mult.commute mult_div_mod_eq)
  then have "(k + 1) div 12 = k div 12 + 1 \<and> (k + 1) mod 12 = 0"
    using int_div_pos_eq[of "k + 1" 12 "k div 12 + 1" 0] int_mod_pos_eq[of "k + 1" 12 "k div 12 + 1" 0]
    by simp
  then show ?thesis using True by simp
next
  case False
  have r: "0 \<le> k mod 12" "k mod 12 < 12" by simp_all
  with False have lt: "k mod 12 < 11" by linarith
  have "k + 1 = 12 * (k div 12) + (k mod 12 + 1)" by simp
  then have "(k + 1) div 12 = k div 12 \<and> (k + 1) mod 12 = k mod 12 + 1"
    using int_div_pos_eq[of "k + 1" 12 "k div 12" "k mod 12 + 1"]
      int_mod_pos_eq[of "k + 1" 12 "k div 12" "k mod 12 + 1"] r lt
    by simp
  then show ?thesis using lt by simp
qed

lemma minus_one_day_bucket_at:
  assumes "12 \<le> k"
  shows "minus_one_day (m_start (bucket_at (k + 1))) = Inr (m_end (bucket_at k))"
proof -
  have y: "1 \<le> k div 12" using assms by simp
  from succ_div_mod_12[of k] show ?thesis
  proof
    assume "k mod 12 = 11 \<and> (k + 1) mod 12 = 0 \<and> (k + 1) div 12 = k div 12 + 1"
    then show ?thesis using y
      by (simp add: minus_one_day_def bucket_at_def MINYEAR_def days_in_month_def)
  next
    assume "k mod 12 < 11 \<and> (k + 1) mod 12 = k mod 12 + 1 \<and> (k + 1) div 12 = k div 12"
    moreover have "0 \<le> k mod 12" by simp
    ultimately show ?thesis
      by (simp add: minus_one_day_def bucket_at_def add.commute)
  qed
qed

lemma nth_bucket_list:
  assumes "i < length (map bucket_at [a..b])"
  shows "map bucket_at [a..b] ! i = bucket_at (a + int i)"
proof -
  from assms have "a + int i \<le> b" by simp
  then have "[a..b] ! i = a + int i" by (rule nth_upto)
  moreover from assms have "i < length [a..b]" by simp
  ultimately show ?thesis by (simp only: nth_map)
qed

text \<open>The example request and its rows, evaluated.\<close>

lemma demo_months: "get_months_in_range demo_wizard = Inr [january, february]"
proof -
  have v: "valid_date (date_from demo_wizard)" "valid_date (date_to demo_wizard)"
    "\<not> (year (date_to demo_wizard) = 9999 \<and> month (date_to demo_wizard) = 12)"
    by (simp_all add: demo_wizard_def wiz_def valid_date_def MINYEAR_def MAXYEAR_def
        days_in_month_def isleap_def)
  have i: "month_index (date_from demo_wizard) = 24288" "month_index (date_to demo_wizard) = 24289"
    by (simp_all add: demo_wizard_def wiz_def month_index_def)
  have u: "[24288..24289] = [24288, 24289::int]"
    by (simp add: upto_rec1)
  have b: "bucket_at 24288 = january" "bucket_at 24289 = february"
    by (simp_all add: bucket_at_def january_def february_def days_in_month_def isleap_def)
  show ?thesis
    unfolding months_in_range_closed_form[OF v] i u by (simp add: b)
qed

lemma demo_locations: "get_location_ids demo_env demo_wizard = [1]"
  by (simp add: get_location_ids_def demo_wizard_def wiz_def demo_env_def)

lemma demo_stock:
  "get_stock_at_date demo_env 1 \<lparr>year = 2023, month = 12, day = 31\<rparr> [1] = Inr 0"
  "get_stock_at_date demo_env 1 \<lparr>year = 2024, month = 1, day = 31\<rparr> [1] = Inr 10"
  "get_stock_at_date demo_env 1 \<lparr>year = 2024, month = 2, day = 29\<rparr> [1] = Inr 10"
  by (simp_all add: get_stock_at_date_def demo_env_def date_le_def)

lemma demo_opening_closing:
  "opening_stock demo_env 1 january [1] = Inr 0"
  "closing_stock demo_env 1 january [1] = Inr 10"
  "opening_stock demo_env 1 february [1] = Inr 10"
  "closing_stock demo_env 1 february [1] = Inr 10"
  by (simp_all add: opening_stock_def closing_stock_def january_def february_def minus_one_day_def
      MINYEAR_def days_in_month_def demo_stock)

lemma demo_data_january:
  "get_stock_moves_data demo_env demo_wizard 1 (m_start january) (m_end january) [1] =
   Inr \<lparr>qty_in = 10, qty_out = 0, value_in = 1000, value_out = 0,
        purchase_qty = 10, purchase_value = 1000, sale_qty = 10, sale_value = 3600,
        pos_qty = 0, pos_value = 0\<rparr>"
  using demo_data_jan by (simp add: january_def demo_wizard_def)

lemma demo_data_february:
  "get_stock_moves_data demo_env demo_wizard 1 (m_start february) (m_end february) [1] =
   Inr \<lparr>qty_in = 0, qty_out = 0, value_in = 0, value_out = 0,
        purchase_qty = 0, purchase_value = 0, sale_qty = 0, sale_value = 0,
        pos_qty = 1, pos_value = 30\<rparr>"
  apply (simp add: get_stock_moves_data_def demo_kits Let_def wiz_def demo_wizard_def february_def)
  apply (simp add: query_incoming_def query_outgoing_def query_purchase_def purchase_rows_def
      query_sale_def sale_qty_sum_def sale_value_sum_def sale_rows_def query_pos_def pos_rows_def
      in_window_def date_le_def)
  apply (simp add: demo_env_def)
  done

lemma demo_row:
  "product_row demo_env demo_wizard 1 [january, february] [1] =
     Inr ([january_row, february_row], [(2024, totals_2024)])"
proof -
  have y: "initial_totals [january, february] =
      [(2024, \<lparr>total_purchase_qty = 0, total_purchase_value = 0, total_sale_qty = 0,
                   total_sale_value = 0, total_pos_qty = 0, total_pos_value = 0\<rparr>)]"
    by (simp add: initial_totals_def years_in_range_def january_def february_def)
  have my: "m_year january = 2024" "m_year february = 2024"
    by (simp_all add: january_def february_def)
  have fa: "float_add demo_env = double_add"
    by (simp add: demo_env_def)
  show ?thesis
    unfolding product_row_def y
    by (simp add: demo_opening_closing demo_data_january demo_data_february accumulate_def my
        january_row_def february_row_def totals_2024_def fa double_add_def round_double_small)
qed

text \<open>
  C5. For every product, location set and pair of consecutive buckets returned by
  \<open>_get_months_in_range\<close>, the day before the start of the later bucket is the end of
  the earlier one, so the opening stock of the later month is the closing stock of the
  earlier month.
\<close>

theorem opening_is_previous_closing:
  assumes "get_months_in_range w = Inr ms" and "Suc i < length ms"
  shows "minus_one_day (m_start (ms ! Suc i)) = Inr (m_end (ms ! i)) \<and>
         opening_stock env product_id (ms ! Suc i) location_ids =
           closing_stock env product_id (ms ! i) location_ids"
proof -
  let ?a = "month_index (date_from w)" and ?b = "month_index (date_to w)"
  from months_in_range_Inr[OF assms(1)]
  have ms: "ms = map bucket_at [?a..?b]" and a: "12 \<le> ?a" by blast+
  have n0: "ms ! i = bucket_at (?a + int i)"
    using assms(2) unfolding ms by (intro nth_bucket_list) simp
  have "ms ! Suc i = bucket_at (?a + int (Suc i))"
    using assms(2) unfolding ms by (intro nth_bucket_list)
  moreover have "?a + int (Suc i) = ?a + int i + 1" by simp
  ultimately have n1: "ms ! Suc i = bucket_at (?a + int i + 1)"
    by (simp only:)
  have "12 \<le> ?a + int i" using a by simp
  then have "minus_one_day (m_start (bucket_at (?a + int i + 1)))
      = Inr (m_end (bucket_at (?a + int i)))"
    by (rule minus_one_day_bucket_at)
  then have "minus_one_day (m_start (ms ! Suc i)) = Inr (m_end (ms ! i))"
    by (simp only: n0 n1)
  then show ?thesis by (simp add: opening_stock_def closing_stock_def)
qed

theorem opening_is_previous_closing_witness:
  "get_months_in_range demo_wizard = Inr [january, february] \<and>
   Suc 0 < length [january, february] \<and>
   minus_one_day (m_start february) = Inr (m_end january) \<and>
   opening_stock demo_env 1 february [1] = Inr 10 \<and>
   closing_stock demo_env 1 january [1] = Inr 10"
  using opening_is_previous_closing [OF demo_months, of 0 demo_env 1 "[1]"]
  by (simp add: demo_months demo_opening_closing)

section \<open>Sales with kit attribution\<close>







section \<open>Yearly totals of a row\<close>

text \<open>
  C6, as amended. For every product row that is written, the keys of \<open>yearly_totals\<close>
  are the years of the report in ascending order, and each of the six totals of a year is
  what adding the product's monthly figures of the months of that year to 0 gives, one
  after the other in month order, with the platform's floating-point addition; for a year
  where none of these additions rounds, each total is exactly the sum of these monthly
  figures.
\<close>

theorem yearly_totals_are_month_sums:
  assumes "product_row env w product_id months location_ids = Inr (rows, yearly_totals)"
  shows "length rows = length months \<and>
         map fst yearly_totals = years_in_range months \<and>
         list_all (totals_match (float_add env) months rows) yearly_totals \<and>
         list_all (\<lambda>yt. totals_exact (float_add env) months rows (fst yt) \<longrightarrow>
                         totals_are_sums months rows yt) yearly_totals"
proof -
  from assms have mr: "month_rows env w product_id location_ids months (initial_totals months)
      = Inr (rows, yearly_totals)"
    by (simp add: product_row_def)
  note M = month_rows_totals[OF mr]
  have keys: "map fst yearly_totals = years_in_range months"
    using M by (simp add: initial_totals_def comp_def)
  have dist: "distinct (map fst yearly_totals)"
    unfolding keys years_in_range_def by simp
  have tm: "totals_match (float_add env) months rows (y, t)"
    if "(y, t) \<in> set yearly_totals" for y t
  proof -
    have yt: "map_of yearly_totals y = Some t"
      using that dist by simp
    have "y \<in> set (years_in_range months)"
      using that keys by (metis fst_conv image_eqI set_map)
    then have "map_of (initial_totals months) y =
      Some \<lparr>total_purchase_qty = 0, total_purchase_value = 0, total_sale_qty = 0,
            total_sale_value = 0, total_pos_qty = 0, total_pos_value = 0\<rparr>"
      by (simp add: initial_totals_def map_of_map_restrict)
    with M yt have "totals_offset (float_add env) months rows y
       \<lparr>total_purchase_qty = 0, total_purchase_value = 0, total_sale_qty = 0,
            total_sale_value = 0, total_pos_qty = 0, total_pos_value = 0\<rparr> t"
      by fastforce
    then show ?thesis by (simp add: totals_match_def totals_offset_def)
  qed
  then have all: "list_all (totals_match (float_add env) months rows) yearly_totals"
    by (auto simp: list_all_iff)
  have "totals_are_sums months rows (y, t)"
    if "(y, t) \<in> set yearly_totals" and "totals_exact (float_add env) months rows y" for y t
    using tm[OF that(1)] that(2)
    by (simp add: totals_match_def totals_exact_def totals_are_sums_def year_sum_def
        foldl_adds_exact)
  then have exact: "list_all (\<lambda>yt. totals_exact (float_add env) months rows (fst yt) \<longrightarrow>
      totals_are_sums months rows yt) yearly_totals"
    by (auto simp: list_all_iff)
  from M keys all exact show ?thesis by simp
qed

theorem yearly_totals_are_month_sums_witness:
  "product_row demo_env demo_wizard 1 [january, february] [1] =
     Inr ([january_row, february_row], [(2024, totals_2024)]) \<and>
   years_in_range [january, february] = [2024] \<and>
   totals_match double_add [january, february] [january_row, february_row] (2024, totals_2024) \<and>
   total_pos_value totals_2024 =
     double_add (double_add 0 (md_pos_value january_row)) (md_pos_value february_row) \<and>
   totals_exact double_add [january, february] [january_row, february_row] 2024 \<and>
   totals_are_sums [january, february] [january_row, february_row] (2024, totals_2024)"
proof -
  have fa: "float_add demo_env = double_add"
    by (simp add: demo_env_def)
  from yearly_totals_are_month_sums [OF demo_row]
  have y: "years_in_range [january, february] = [2024]"
    and t: "totals_match double_add [january, february] [january_row, february_row]
             (2024, totals_2024)"
    and s: "totals_exact double_add [january, february] [january_row, february_row] 2024 \<longrightarrow>
            totals_are_sums [january, february] [january_row, february_row] (2024, totals_2024)"
    by (simp_all add: fa)
  have my: "m_year january = 2024" "m_year february = 2024"
    by (simp_all add: january_def february_def)
  from t have v: "total_pos_value totals_2024 =
     double_add (double_add 0 (md_pos_value january_row)) (md_pos_value february_row)"
    by (simp add: totals_match_def my)
  have e: "totals_exact double_add [january, february] [january_row, february_row] 2024"
    by (simp add: totals_exact_def my january_row_def february_row_def double_add_def
        round_double_small)
  from y t v e s demo_row show ?thesis by blast
qed

lemma quarter_months: "get_months_in_range quarter_wizard = Inr [january, february, march]"
proof -
  have v: "valid_date (date_from quarter_wizard)" "valid_date (date_to quarter_wizard)"
    "\<not> (year (date_to quarter_wizard) = 9999 \<and> month (date_to quarter_wizard) = 12)"
    by (simp_all add: quarter_wizard_def wiz_def valid_date_def MINYEAR_def MAXYEAR_def
        days_in_month_def isleap_def)
  have i: "month_index (date_from quarter_wizard) = 24288"
    "month_index (date_to quarter_wizard) = 24290"
    by (simp_all add: quarter_wizard_def wiz_def month_index_def)
  have u: "[24288..24290] = [24288, 24289, 24290::int]"
    by (simp add: upto_rec1)
  have b: "bucket_at 24288 = january" "bucket_at 24289 = february" "bucket_at 24290 = march"
    by (simp_all add: bucket_at_def january_def february_def march_def days_in_month_def
        isleap_def)
  show ?thesis
    unfolding months_in_range_closed_form[OF v] i u by (simp add: b)
qed

lemma weighed_opening_closing:
  "opening_stock weighed_env 1 january [1] = Inr 0"
  "closing_stock weighed_env 1 january [1] = Inr 10"
  "opening_stock weighed_env 1 february [1] = Inr 10"
  "closing_stock weighed_env 1 february [1] = Inr 10"
  "opening_stock weighed_env 1 march [1] = Inr 10"
  "closing_stock weighed_env 1 march [1] = Inr 10"
  by (simp_all add: opening_stock_def closing_stock_def january_def february_def march_def
      minus_one_day_def MINYEAR_def days_in_month_def isleap_def get_stock_at_date_def
      weighed_env_def demo_env_def date_le_def)

lemma weighed_kits: "get_phantom_bom_components weighed_env 1 = [(2, 2)]"
  by (simp add: get_phantom_bom_components_def component_lines_def resolve_line_def
      weighed_env_def demo_env_def product_variant_ids_def line_component_qty_def)

lemma weighed_pos:
  "query_pos weighed_env 1 (m_start january) (m_end january) = (tenth, 1)"
  "query_pos weighed_env 1 (m_start february) (m_end february) = (fifth, 2)"
  "query_pos weighed_env 1 (m_start march) (m_end march) = (three_tenths, 3)"
  "query_pos weighed_env 2 (m_start january) (m_end january) = (0, 0)"
  "query_pos weighed_env 2 (m_start february) (m_end february) = (0, 0)"
  "query_pos weighed_env 2 (m_start march) (m_end march) = (0, 0)"
  by (simp_all add: query_pos_def pos_rows_def weighed_env_def january_def february_def
      march_def in_window_def date_le_def)

lemma weighed_data:
  "get_stock_moves_data weighed_env quarter_wizard 1 (m_start january) (m_end january) [1] =
   Inr \<lparr>qty_in = 10, qty_out = 0, value_in = 1000, value_out = 0,
        purchase_qty = 0, purchase_value = 0, sale_qty = 0, sale_value = 0,
        pos_qty = tenth, pos_value = 1\<rparr>"
  "get_stock_moves_data weighed_env quarter_wizard 1 (m_start february) (m_end february) [1] =
   Inr \<lparr>qty_in = 0, qty_out = 0, value_in = 0, value_out = 0,
        purchase_qty = 0, purchase_value = 0, sale_qty = 0, sale_value = 0,
        pos_qty = fifth, pos_value = 2\<rparr>"
  "get_stock_moves_data weighed_env quarter_wizard 1 (m_start march) (m_end march) [1] =
   Inr \<lparr>qty_in = 0, qty_out = 0, value_in = 0, value_out = 0,
        purchase_qty = 0, purchase_value = 0, sale_qty = 0, sale_value = 0,
        pos_qty = three_tenths, pos_value = 3\<rparr>"
    apply (simp_all add: get_stock_moves_data_def weighed_kits weighed_pos Let_def)
    apply (simp_all add: query_incoming_def query_outgoing_def query_purchase_def
      purchase_rows_def query_sale_def sale_qty_sum_def sale_value_sum_def sale_rows_def
      in_window_def date_le_def quarter_wizard_def wiz_def january_def february_def march_def)
    apply (simp_all add: weighed_env_def demo_env_def)
  done

lemma weighed_row:
  "product_row weighed_env quarter_wizard 1 [january, february, march] [1] =
     Inr (weighed_rows, [(2024, weighed_totals)])"
proof -
  have y: "initial_totals [january, february, march] =
      [(2024, \<lparr>total_purchase_qty = 0, total_purchase_value = 0, total_sale_qty = 0,
            total_sale_value = 0, total_pos_qty = 0, total_pos_value = 0\<rparr>)]"
    by (simp add: initial_totals_def years_in_range_def january_def february_def march_def)
  have my: "m_year january = 2024" "m_year february = 2024" "m_year march = 2024"
    by (simp_all add: january_def february_def march_def)
  have fa: "float_add weighed_env = double_add"
    by (simp add: weighed_env_def demo_env_def)
  have z: "double_add 0 0 = 0" "double_add 0 1 = 1" "double_add 1 2 = 3" "double_add 3 3 = 6"
    by (simp_all add: double_add_def round_double_small)
  show ?thesis
    unfolding product_row_def y
    by (simp add: weighed_opening_closing weighed_data accumulate_def my fa z
        double_add_tenth double_add_tenth_fifth double_add_three_tenths
        weighed_rows_def weighed_totals_def)
qed

text \<open>
  C6 as stated fails where the additions round: with the monthly quantities 0.1, 0.2 and
  0.3 the yearly total is 0.6000000000000001, which is not the sum of the three figures.
\<close>

theorem float_total_is_not_the_sum:
  "get_months_in_range quarter_wizard = Inr [january, february, march] \<and>
   product_row weighed_env quarter_wizard 1 [january, february, march] [1] =
     Inr (weighed_rows, [(2024, weighed_totals)]) \<and>
   map md_pos_qty weighed_rows = [tenth, fifth, three_tenths] \<and>
   double_add (double_add (double_add 0 tenth) fifth) three_tenths = 5404319552844596 / 2 ^ 53 \<and>
   total_pos_qty weighed_totals = 5404319552844596 / 2 ^ 53 \<and>
   year_sum md_pos_qty 2024 [january, february, march] weighed_rows
     = 21617278211378381 / 2 ^ 55 \<and>
   \<not> totals_are_sums [january, february, march] weighed_rows (2024, weighed_totals)"
proof -
  have my: "m_year january = 2024" "m_year february = 2024" "m_year march = 2024"
    by (simp_all add: january_def february_def march_def)
  have s: "year_sum md_pos_qty 2024 [january, february, march] weighed_rows
     = 21617278211378381 / 2 ^ 55"
    by (simp add: year_sum_def weighed_rows_def my tenth_def fifth_def three_tenths_def)
  have t: "total_pos_qty weighed_totals = 5404319552844596 / 2 ^ 53"
    by (simp add: weighed_totals_def rounded_six_tenths_def)
  have n: "\<not> totals_are_sums [january, february, march] weighed_rows (2024, weighed_totals)"
    by (simp add: totals_are_sums_def s t)
  have m: "map md_pos_qty weighed_rows = [tenth, fifth, three_tenths]"
    by (simp add: weighed_rows_def)
  have d: "double_add (double_add (double_add 0 tenth) fifth) three_tenths
      = 5404319552844596 / 2 ^ 53"
    by (simp only: double_add_tenth double_add_tenth_fifth double_add_three_tenths
        rounded_six_tenths_def)
  from quarter_months weighed_row m d t s n show ?thesis by blast
qed

section \<open>Properties of the Product Selector\<close>

lemma get_products_set:
  fixes env :: "('n::linorder) env"
  shows "set (get_products env w) =
     {p \<in> set (products env). search_domain env w p \<and> \<not> has_phantom_bom env p}"
proof -
  define found where "found = sort_key p_name (filter (search_domain env w) (products env))"
  define ids where "ids = map bom_product_tmpl_id
                 (filter (\<lambda>b. bom_type b = ''phantom'' \<and>
                              bom_product_tmpl_id b \<in> set (map p_product_tmpl_id found))
                    (boms env))"
  have sf: "set found = {p \<in> set (products env). search_domain env w p}"
    by (simp add: found_def)
  have key: "p_product_tmpl_id p \<in> set ids \<longleftrightarrow> has_phantom_bom env p" if "p \<in> set found" for p
  proof
    assume "p_product_tmpl_id p \<in> set ids"
    then show "has_phantom_bom env p"
      by (auto simp: ids_def has_phantom_bom_def list_ex_iff)
  next
    assume "has_phantom_bom env p"
    then obtain b where b: "b \<in> set (boms env)" "bom_type b = ''phantom''"
      "bom_product_tmpl_id b = p_product_tmpl_id p"
      by (auto simp: has_phantom_bom_def list_ex_iff)
    then have "bom_product_tmpl_id b \<in> set (map p_product_tmpl_id found)"
      using that by simp
    with b have "b \<in> set (filter (\<lambda>b. bom_type b = ''phantom'' \<and>
                              bom_product_tmpl_id b \<in> set (map p_product_tmpl_id found))
                    (boms env))"
      by simp
    then have "bom_product_tmpl_id b \<in> set ids"
      unfolding ids_def by (simp only: set_map) (rule imageI)
    then show "p_product_tmpl_id p \<in> set ids" using b(3) by simp
  qed
  have gp: "get_products env w =
      (if found \<noteq> [] then (if ids \<noteq> [] then filter (\<lambda>p. p_product_tmpl_id p \<notin> set ids) found
                             else found) else found)"
    by (simp add: get_products_def Let_def found_def ids_def)
  show ?thesis
  proof (cases "found = []")
    case True
    then show ?thesis using sf gp by auto
  next
    case False
    show ?thesis
    proof (cases "ids = []")
      case True
      then have "\<not> has_phantom_bom env p" if "p \<in> set found" for p
        using key[OF that] by simp
      then show ?thesis using sf gp True False by auto
    next
      case ne: False
      have "set (get_products env w) = {p \<in> set found. p_product_tmpl_id p \<notin> set ids}"
        using gp False ne by simp
      also have "\<dots> = {p \<in> set found. \<not> has_phantom_bom env p}"
        using key by blast
      finally show ?thesis using sf by blast
    qed
  qed
qed

lemma get_products_sorted:
  fixes env :: "('n::linorder) env"
  shows "sorted (map p_name (get_products env w))"
  by (simp add: get_products_def Let_def sorted_filter)

text \<open>
  C7. For every filter combination, \<open>_get_products\<close> returns exactly the variants of
  type \<open>consu\<close> that match the id filter and the category filter when these are set
  and whose template has no phantom bill of materials, ordered by name; no kit is in its
  result.
\<close>

theorem product_selector:
  fixes env :: "('n::linorder) env"
  shows "set (get_products env w) =
           {p \<in> set (products env).
              p_type p = ''consu'' \<and>
              (product_ids w \<noteq> [] \<longrightarrow> p_id p \<in> set (product_ids w)) \<and>
              (category_ids w \<noteq> [] \<longrightarrow> categ_child_of env (p_categ_id p) (category_ids w)) \<and>
              \<not> has_phantom_bom env p} \<and>
         sorted (map p_name (get_products env w))"
  using get_products_set [of env w] get_products_sorted [of env w]
  by (simp add: search_domain_def conj_ac)

lemma demo_products: "products demo_env = [bolt, assembly_kit, anchor]"
  by (simp add: demo_env_def bolt_def assembly_kit_def anchor_def)

lemma demo_phantom:
  "\<not> has_phantom_bom demo_env bolt" "has_phantom_bom demo_env assembly_kit"
  "\<not> has_phantom_bom demo_env anchor"
  by (simp_all add: has_phantom_bom_def demo_env_def bolt_def assembly_kit_def anchor_def)

theorem product_selector_witness:
  "has_phantom_bom demo_env assembly_kit \<and>
   set (get_products demo_env
          (wiz \<lparr>year = 2024, month = 1, day = 15\<rparr> \<lparr>year = 2024, month = 2, day = 10\<rparr>))
     = {anchor, bolt} \<and>
   sorted (map p_name (get_products demo_env
          (wiz \<lparr>year = 2024, month = 1, day = 15\<rparr> \<lparr>year = 2024, month = 2, day = 10\<rparr>)))"
proof -
  let ?w = "wiz \<lparr>year = 2024, month = 1, day = 15\<rparr> \<lparr>year = 2024, month = 2, day = 10\<rparr>"
  have t: "p_type bolt = ''consu''" "p_type assembly_kit = ''consu''" "p_type anchor = ''consu''"
    by (simp_all add: bolt_def assembly_kit_def anchor_def)
  have "set (get_products demo_env ?w) = {anchor, bolt}"
    using product_selector [of demo_env ?w] demo_phantom t
    by (auto simp: demo_products wiz_def)
  then show ?thesis
    using product_selector [of demo_env ?w] demo_phantom by simp
qed

lemma demo_get_products:
  "get_products demo_env (wiz a b) = [anchor, bolt]"
proof -
  have names: "p_name anchor < p_name assembly_kit" "p_name assembly_kit < p_name bolt"
    "p_name anchor < p_name bolt"
    by (simp_all add: bolt_def assembly_kit_def anchor_def)
  have f: "filter (search_domain demo_env (wiz a b)) (products demo_env)
      = [bolt, assembly_kit, anchor]"
    by (simp add: demo_products search_domain_def wiz_def)
       (simp add: bolt_def assembly_kit_def anchor_def)
  have s: "sort_key p_name [bolt, assembly_kit, anchor] = [anchor, assembly_kit, bolt]"
    using names by (simp add: not_le less_imp_le)
  have ids: "map bom_product_tmpl_id
                 (filter (\<lambda>b. bom_type b = ''phantom'' \<and>
                              bom_product_tmpl_id b \<in>
                                set (map p_product_tmpl_id [anchor, assembly_kit, bolt]))
                    (boms demo_env)) = [2]"
    by (simp add: demo_env_def bolt_def assembly_kit_def anchor_def)
  show ?thesis
    unfolding get_products_def Let_def f s ids
    by (simp add: bolt_def assembly_kit_def anchor_def)
qed

section \<open>Properties of report generation\<close>

lemma is_user_error_simps [simp]:
  "is_user_error (Inl (UserError msg))"
  "\<not> is_user_error (Inl ValueError)"
  "\<not> is_user_error (Inl OverflowError)"
  "\<not> is_user_error (Inl ProgrammingError)"
  "\<not> is_user_error (Inl DivisionByZero)"
  "\<not> is_user_error (Inl KeyError)"
  "\<not> is_user_error (Inr v)"
  by (simp_all add: is_user_error_def)

lemma is_user_error_ebind:
  "is_user_error (ebind x f) \<longleftrightarrow> is_user_error x \<or> (\<exists>v. x = Inr v \<and> is_user_error (f v))"
  by (cases x) (simp_all add: is_user_error_def)

lemma minus_one_day_no_user_error: "\<not> is_user_error (minus_one_day d)"
  by (simp add: minus_one_day_def)

lemma get_stock_at_date_no_user_error: "\<not> is_user_error (get_stock_at_date env p d locs)"
  by (simp add: get_stock_at_date_def)

lemma opening_stock_no_user_error: "\<not> is_user_error (opening_stock env p m locs)"
  by (simp add: opening_stock_def is_user_error_ebind minus_one_day_no_user_error
      get_stock_at_date_no_user_error)

lemma closing_stock_no_user_error: "\<not> is_user_error (closing_stock env p m locs)"
  by (simp add: closing_stock_def get_stock_at_date_no_user_error)

lemma query_sale_no_user_error: "\<not> is_user_error (query_sale env p ds de)"
  by (simp add: query_sale_def)

lemma kit_sales_no_user_error: "\<not> is_user_error (kit_sales env ds de items acc)"
proof (induction items arbitrary: acc)
  case Nil
  show ?case by simp
next
  case (Cons item items)
  obtain k m where "item = (k, m)" by (cases item)
  then show ?case
    by (simp add: is_user_error_ebind query_sale_no_user_error Cons.IH)
qed

lemma get_stock_moves_data_no_user_error:
  "\<not> is_user_error (get_stock_moves_data env w p ds de locs)"
proof -
  have 1: "\<not> is_user_error (query_incoming env p ds de locs)"
    by (simp add: query_incoming_def Let_def)
  have 2: "\<not> is_user_error (query_outgoing env p ds de locs)"
    by (simp add: query_outgoing_def Let_def)
  have 3: "\<not> is_user_error (query_purchase env p ds de)"
    by (simp add: query_purchase_def Let_def)
  show ?thesis
    by (simp add: get_stock_moves_data_def Let_def is_user_error_ebind 1 2 3
        query_sale_no_user_error kit_sales_no_user_error)
qed

lemma accumulate_no_user_error: "\<not> is_user_error (accumulate add yt y data)"
  by (simp add: accumulate_def split: option.splits)

lemma month_rows_no_user_error: "\<not> is_user_error (month_rows env w p locs ms yt)"
  by (induction ms arbitrary: yt)
     (simp_all add: is_user_error_ebind opening_stock_no_user_error closing_stock_no_user_error
       get_stock_moves_data_no_user_error accumulate_no_user_error)

lemma write_excel_content_no_user_error:
  "\<not> is_user_error (write_excel_content env w ps ms locs)"
  by (induction ps)
     (simp_all add: is_user_error_ebind product_row_def month_rows_no_user_error)

lemma action_generate_report_user_error:
  fixes env :: "('n::linorder) env"
  assumes "get_months_in_range w = Inr ms"
  shows "is_user_error (action_generate_report env w) \<longleftrightarrow>
     (\<not> xlsxwriter env \<or> get_products env w = [] \<or> ms = [] \<or> get_location_ids env w = [])"
  using assms
  by (simp add: action_generate_report_def Let_def write_excel_content_no_user_error)

text \<open>
  C8, as amended. For a request whose end date is before December 9999, report
  generation ends with a user-facing error, and so without a file, exactly when the start
  date is after the end date, no product is selected, the month range is empty, the
  location set is empty or the spreadsheet library is missing; a range with
  \<open>date_from = date_to\<close> passes the date check and has a month.
\<close>

theorem report_validation:
  fixes env :: "('n::linorder) env"
  assumes "valid_date (date_from w)" and "valid_date (date_to w)"
    and "\<not> (year (date_to w) = 9999 \<and> month (date_to w) = 12)"
  shows "(is_user_error (generate_report env w) \<longleftrightarrow> validation_failure env w) \<and>
         (date_from w = date_to w \<longrightarrow>
            check_dates w = Inr () \<and> get_months_in_range w \<noteq> Inr [])"
proof -
  let ?ms = "map bucket_at [month_index (date_from w)..month_index (date_to w)]"
  have ms: "get_months_in_range w = Inr ?ms"
    using assms by (rule months_in_range_closed_form)
  have iff: "is_user_error (generate_report env w) \<longleftrightarrow> validation_failure env w"
  proof (cases "date_lt (date_to w) (date_from w)")
    case True
    then show ?thesis
      by (simp add: generate_report_def check_dates_def validation_failure_def)
  next
    case False
    then have "generate_report env w = action_generate_report env w"
      by (simp add: generate_report_def check_dates_def)
    then show ?thesis
      using action_generate_report_user_error[OF ms, of env] False ms
      by (auto simp: validation_failure_def)
  qed
  have same: "check_dates w = Inr () \<and> get_months_in_range w \<noteq> Inr []"
    if "date_from w = date_to w"
    using that ms by (simp add: check_dates_def date_lt_def)
  from iff same show ?thesis by blast
qed

theorem report_validation_witness:
  "valid_date (date_from demo_wizard) \<and> valid_date (date_to demo_wizard) \<and>
   \<not> validation_failure demo_env demo_wizard \<and>
   \<not> is_user_error (generate_report demo_env demo_wizard) \<and>
   validation_failure (demo_env\<lparr>locations := []\<rparr>) demo_wizard \<and>
   is_user_error (generate_report (demo_env\<lparr>locations := []\<rparr>) demo_wizard)"
proof -
  have v: "valid_date (date_from demo_wizard)" "valid_date (date_to demo_wizard)"
    "\<not> (year (date_to demo_wizard) = 9999 \<and> month (date_to demo_wizard) = 12)"
    by (simp_all add: demo_wizard_def wiz_def valid_date_def MINYEAR_def MAXYEAR_def
        days_in_month_def isleap_def)
  have p: "get_products demo_env demo_wizard = [anchor, bolt]"
    by (simp add: demo_wizard_def demo_get_products)
  have x: "xlsxwriter demo_env" by (simp add: demo_env_def)
  have d: "\<not> date_lt (date_to demo_wizard) (date_from demo_wizard)"
    by (simp add: date_lt_def date_le_def demo_wizard_def wiz_def)
  have ok: "\<not> validation_failure demo_env demo_wizard"
    by (simp add: validation_failure_def p x d demo_months demo_locations)
  have bad: "validation_failure (demo_env\<lparr>locations := []\<rparr>) demo_wizard"
    by (simp add: validation_failure_def get_location_ids_def)
  from report_validation [OF v, of demo_env] report_validation [OF v, of "demo_env\<lparr>locations := []\<rparr>"]
    ok bad v
  show ?thesis by simp
qed

lemma get_products_locations:
  "get_products (env\<lparr>locations := ls\<rparr>) w = get_products env w"
proof -
  have "search_domain (env\<lparr>locations := ls\<rparr>) w = search_domain env w"
    by (rule ext) (simp add: search_domain_def)
  then show ?thesis by (simp add: get_products_def Let_def)
qed

text \<open>
  C8 as stated fails for a request that ends in December 9999: with an empty location set
  the call ends with the date type's \<open>ValueError\<close>, raised while the months are built,
  before the location set is looked at.
\<close>

theorem report_validation_overflow:
  "get_location_ids no_locations_env last_day_wizard = [] \<and>
   \<not> date_lt (date_to last_day_wizard) (date_from last_day_wizard) \<and>
   generate_report no_locations_env last_day_wizard = Inl ValueError"
proof -
  have p: "get_products no_locations_env last_day_wizard = [anchor, bolt]"
    by (simp add: no_locations_env_def last_day_wizard_def get_products_locations
        demo_get_products)
  have m: "get_months_in_range last_day_wizard = Inl ValueError"
    by (simp add: get_months_in_range_def wiz_def date_replace_day_def date_ctor_def valid_date_def
      MINYEAR_def MAXYEAR_def days_in_month_def months_loop.simps date_le_def plus_one_month_def
      last_day_wizard_def)
  have x: "xlsxwriter no_locations_env" by (simp add: no_locations_env_def demo_env_def)
  have c: "check_dates last_day_wizard = Inr ()"
    by (simp add: check_dates_def date_lt_def last_day_wizard_def wiz_def)
  have "generate_report no_locations_env last_day_wizard = Inl ValueError"
    by (simp add: generate_report_def c action_generate_report_def x p m)
  moreover have "get_location_ids no_locations_env last_day_wizard = []"
    by (simp add: get_location_ids_def no_locations_env_def)
  ultimately show ?thesis
    by (simp add: date_lt_def last_day_wizard_def wiz_def)
qed

section \<open>Windows of the flow figures\<close>

lemma month_rows_nth:
  "month_rows env w p locs ms yt0 = Inr (rows, yt) \<Longrightarrow> i < length ms \<Longrightarrow>
   \<exists>data. get_stock_moves_data env w p (m_start (ms ! i)) (m_end (ms ! i)) locs = Inr data \<and>
          flows_of data (rows ! i) \<and>
          opening_stock env p (ms ! i) locs = Inr (md_opening_qty (rows ! i)) \<and>
          closing_stock env p (ms ! i) locs = Inr (md_closing_qty (rows ! i))"
proof (induction ms arbitrary: yt0 rows i)
  case Nil
  then show ?case by simp
next
  case (Cons m ms)
  from Cons.prems(1) obtain opening_q data closing_q yt1 rest where
    o: "opening_stock env p m locs = Inr opening_q" and
    d: "get_stock_moves_data env w p (m_start m) (m_end m) locs = Inr data" and
    c: "closing_stock env p m locs = Inr closing_q" and
    rec: "month_rows env w p locs ms yt1 = Inr rest" and
    rows: "rows = \<lparr>md_opening_qty = opening_q,
              md_purchase_qty = purchase_qty data, md_purchase_value = purchase_value data,
              md_sale_qty = sale_qty data, md_sale_value = sale_value data,
              md_pos_qty = pos_qty data, md_pos_value = pos_value data,
              md_closing_qty = closing_q\<rparr> # fst rest" and
    yt: "yt = snd rest"
    by (auto simp: ebind_Inr_iff)
  show ?case
  proof (cases i)
    case 0
    then show ?thesis using o d c rows by (simp add: flows_of_def)
  next
    case (Suc j)
    from rec have "month_rows env w p locs ms yt1 = Inr (fst rest, yt)" using yt by simp
    from Cons.IH[OF this, of j] Suc Cons.prems(2) rows show ?thesis by simp
  qed
qed

lemma in_window_month:
  assumes "1 \<le> day d" and "day d \<le> days_in_month (year d) (month d)"
  shows "in_window d \<lparr>year = y, month = m, day = 1\<rparr> \<lparr>year = y, month = m, day = days_in_month y m\<rparr>
         \<longleftrightarrow> (year d = y \<and> month d = m)"
proof
  assume "in_window d \<lparr>year = y, month = m, day = 1\<rparr>
            \<lparr>year = y, month = m, day = days_in_month y m\<rparr>"
  then have a: "y < year d \<or> (y = year d \<and> (m < month d \<or> (m = month d \<and> 1 \<le> day d)))"
    and b: "year d < y \<or> (year d = y \<and> (month d < m \<or>
              (month d = m \<and> day d \<le> days_in_month y m)))"
    by (simp_all add: in_window_def date_le_def)
  from a b show "year d = y \<and> month d = m" by linarith
next
  assume "year d = y \<and> month d = m"
  then show "in_window d \<lparr>year = y, month = m, day = 1\<rparr>
            \<lparr>year = y, month = m, day = days_in_month y m\<rparr>"
    using assms by (simp add: in_window_def date_le_def)
qed

lemma in_window_calendar_month:
  assumes "calendar_month b" and "valid_date d"
  shows "in_window d (m_start b) (m_end b) \<longleftrightarrow> (year d = m_year b \<and> month d = m_month b)"
proof -
  from assms(1) have s: "m_start b = \<lparr>year = m_year b, month = m_month b, day = 1\<rparr>"
    and e: "m_end b = \<lparr>year = m_year b, month = m_month b,
                       day = days_in_month (m_year b) (m_month b)\<rparr>"
    by (simp_all add: calendar_month_def)
  from assms(2) have d: "1 \<le> day d" "day d \<le> days_in_month (year d) (month d)"
    by (simp_all add: valid_date_def)
  show ?thesis
    by (simp only: s e in_window_month[OF d])
qed

text \<open>
  C9. For every row that is written, the flow figures of each month are those of
  \<open>_get_stock_moves_data\<close> over the window from day 1 to the last day of the bucket's
  month; a date is in that window exactly when it is in that month, whatever
  \<open>date_from\<close> and \<open>date_to\<close> are; and the first and the last bucket are the months of
  \<open>date_from\<close> and \<open>date_to\<close>, so documents of these months dated before
  \<open>date_from\<close> or after \<open>date_to\<close> are counted.
\<close>

theorem windows_are_calendar_months:
  assumes "get_months_in_range w = Inr ms"
    and "product_row env w product_id ms location_ids = Inr (rows, totals)"
    and "i < length ms"
  shows "(\<exists>data. get_stock_moves_data env w product_id (m_start (ms ! i)) (m_end (ms ! i))
                   location_ids = Inr data \<and> flows_of data (rows ! i)) \<and>
         m_start (ms ! i) = \<lparr>year = m_year (ms ! i), month = m_month (ms ! i), day = 1\<rparr> \<and>
         m_end (ms ! i) = \<lparr>year = m_year (ms ! i), month = m_month (ms ! i),
                           day = days_in_month (m_year (ms ! i)) (m_month (ms ! i))\<rparr> \<and>
         (\<forall>d. valid_date d \<longrightarrow>
            (in_window d (m_start (ms ! i)) (m_end (ms ! i)) \<longleftrightarrow>
             year d = m_year (ms ! i) \<and> month d = m_month (ms ! i))) \<and>
         m_year (hd ms) = year (date_from w) \<and> m_month (hd ms) = month (date_from w) \<and>
         m_year (last ms) = year (date_to w) \<and> m_month (last ms) = month (date_to w)"
proof -
  let ?a = "month_index (date_from w)" and ?b = "month_index (date_to w)"
  from months_in_range_Inr[OF assms(1)]
  have ms: "ms = map bucket_at [?a..?b]" by blast
  from assms(1) obtain c e where c: "date_replace_day (date_from w) 1 = Inr c"
    and e: "date_replace_day (date_to w) 1 = Inr e"
    unfolding get_months_in_range_def ebind_Inr_iff by blast
  from date_replace_day_Inr[OF c] have mf: "1 \<le> month (date_from w)" "month (date_from w) \<le> 12"
    by (auto simp: valid_date_def)
  from date_replace_day_Inr[OF e] have mt: "1 \<le> month (date_to w)" "month (date_to w) \<le> 12"
    by (auto simp: valid_date_def)
  have le: "?a \<le> ?b" using assms(3) ms by auto
  have cal: "calendar_month (ms ! i)"
    using assms(3) unfolding ms by (simp add: nth_bucket_list calendar_month_bucket_at)
  have hd: "hd ms = bucket_at ?a" using le unfolding ms by (simp add: upto_rec1)
  have lst: "last ms = bucket_at ?b" using le unfolding ms by (simp add: upto_rec2)
  have h: "m_year (hd ms) = year (date_from w) \<and> m_month (hd ms) = month (date_from w)"
    unfolding hd using mf by (simp add: bucket_at_def month_index_def)
  have l: "m_year (last ms) = year (date_to w) \<and> m_month (last ms) = month (date_to w)"
    unfolding lst using mt by (simp add: bucket_at_def month_index_def)
  from assms(2) have "month_rows env w product_id location_ids ms (initial_totals ms)
      = Inr (rows, totals)"
    by (simp add: product_row_def)
  from month_rows_nth[OF this assms(3)]
  have d: "\<exists>data. get_stock_moves_data env w product_id (m_start (ms ! i)) (m_end (ms ! i))
                   location_ids = Inr data \<and> flows_of data (rows ! i)"
    by blast
  have w: "\<forall>d. valid_date d \<longrightarrow>
            (in_window d (m_start (ms ! i)) (m_end (ms ! i)) \<longleftrightarrow>
             year d = m_year (ms ! i) \<and> month d = m_month (ms ! i))"
    using in_window_calendar_month[OF cal] by blast
  from cal have se: "m_start (ms ! i) = \<lparr>year = m_year (ms ! i), month = m_month (ms ! i), day = 1\<rparr>"
    "m_end (ms ! i) = \<lparr>year = m_year (ms ! i), month = m_month (ms ! i),
                           day = days_in_month (m_year (ms ! i)) (m_month (ms ! i))\<rparr>"
    by (simp_all add: calendar_month_def)
  from d se w h l show ?thesis by blast
qed

theorem windows_are_calendar_months_witness:
  "date_from demo_wizard = \<lparr>year = 2024, month = 1, day = 15\<rparr> \<and>
   date_to demo_wizard = \<lparr>year = 2024, month = 2, day = 10\<rparr> \<and>
   get_months_in_range demo_wizard = Inr [january, february] \<and>
   product_row demo_env demo_wizard 1 [january, february] [1] =
     Inr ([january_row, february_row], [(2024, totals_2024)]) \<and>
   m_start january = \<lparr>year = 2024, month = 1, day = 1\<rparr> \<and>
   m_end february = \<lparr>year = 2024, month = 2, day = 29\<rparr> \<and>
   in_window \<lparr>year = 2024, month = 1, day = 5\<rparr> (m_start january) (m_end january) \<and>
   in_window \<lparr>year = 2024, month = 2, day = 20\<rparr> (m_start february) (m_end february) \<and>
   md_sale_qty january_row = 4 + 3 * 2 \<and> md_pos_qty february_row = 1"
proof -
  have l0: "0 < length [january, february]" and l1: "Suc 0 < length [january, february]"
    by simp_all
  note T0 = windows_are_calendar_months [OF demo_months demo_row l0, simplified nth_Cons_0]
  note T1 = windows_are_calendar_months [OF demo_months demo_row l1,
      simplified nth_Cons_Suc nth_Cons_0]
  have v: "valid_date \<lparr>year = 2024, month = 1, day = 5\<rparr>"
    "valid_date \<lparr>year = 2024, month = 2, day = 20\<rparr>"
    by (simp_all add: valid_date_def MINYEAR_def MAXYEAR_def days_in_month_def isleap_def)
  have ym: "m_year january = 2024" "m_month january = 1" "m_year february = 2024"
    "m_month february = 2"
    by (simp_all add: january_def february_def)
  from T0 have "\<forall>d. valid_date d \<longrightarrow>
      (in_window d (m_start january) (m_end january) \<longleftrightarrow>
       year d = m_year january \<and> month d = m_month january)"
    by blast
  from this [rule_format, OF v(1)] ym
  have a: "in_window \<lparr>year = 2024, month = 1, day = 5\<rparr> (m_start january) (m_end january)"
    by simp
  from T1 have "\<forall>d. valid_date d \<longrightarrow>
      (in_window d (m_start february) (m_end february) \<longleftrightarrow>
       year d = m_year february \<and> month d = m_month february)"
    by blast
  from this [rule_format, OF v(2)] ym
  have b: "in_window \<lparr>year = 2024, month = 2, day = 20\<rparr> (m_start february) (m_end february)"
    by simp
  have f: "date_from demo_wizard = \<lparr>year = 2024, month = 1, day = 15\<rparr>"
    "date_to demo_wizard = \<lparr>year = 2024, month = 2, day = 10\<rparr>"
    by (simp_all add: demo_wizard_def wiz_def)
  have g: "m_start january = \<lparr>year = 2024, month = 1, day = 1\<rparr>"
    "m_end february = \<lparr>year = 2024, month = 2, day = 29\<rparr>"
    "md_sale_qty january_row = 4 + 3 * 2" "md_pos_qty february_row = 1"
    by (simp_all add: january_def february_def january_row_def february_row_def)
  from a b f g demo_months demo_row show ?thesis by blast
qed

section \<open>Stock-at-date and transfers inside the location set\<close>

text \<open>
  Where no move has both ends in the location set, \<open>_get_stock_at_date\<close> is the signed
  sum of the specification.
\<close>

lemma sum_list_filter_if:
  fixes f :: "'a \<Rightarrow> rat"
  shows "sum_list (map f (filter P xs)) = sum_list (map (\<lambda>x. if P x then f x else 0) xs)"
  by (induction xs) simp_all

lemma stock_at_date_without_internal_transfers:
  assumes "location_ids \<noteq> []"
    and "list_all (\<lambda>sm. \<not> (sm_location_id sm \<in> set location_ids \<and>
                            sm_location_dest_id sm \<in> set location_ids)) (stock_moves env)"
  shows "get_stock_at_date env product_id as_of location_ids =
           Inr (claimed_stock_at_date env product_id as_of location_ids)"
proof -
  define code where "code = (\<lambda>sm::stock_move. if sm_product_id sm = product_id \<and> sm_state sm = ''done'' \<and>
                      date_le (sm_date sm) as_of \<and>
                      (sm_location_id sm \<in> set location_ids \<or>
                       sm_location_dest_id sm \<in> set location_ids)
                   then (if sm_location_dest_id sm \<in> set location_ids then sm_product_qty sm
                         else if sm_location_id sm \<in> set location_ids then - sm_product_qty sm
                         else 0)
                   else 0)"
  define claim where "claim = (\<lambda>sm::stock_move. if sm_product_id sm = product_id \<and> sm_state sm = ''done'' \<and>
                      date_le (sm_date sm) as_of
                   then (if sm_location_dest_id sm \<in> set location_ids \<and>
                            sm_location_id sm \<notin> set location_ids then sm_product_qty sm
                         else if sm_location_id sm \<in> set location_ids \<and>
                                 sm_location_dest_id sm \<notin> set location_ids
                              then - sm_product_qty sm
                         else 0)
                   else 0)"
  have "code sm = claim sm" if "sm \<in> set (stock_moves env)" for sm
    using assms(2) that by (auto simp: list_all_iff code_def claim_def)
  then have "map code (stock_moves env) = map claim (stock_moves env)"
    by (intro map_cong refl)
  then have "sum_list (map code (stock_moves env)) = sum_list (map claim (stock_moves env))"
    by (rule arg_cong)
  moreover have "get_stock_at_date env product_id as_of location_ids =
      Inr (sum_list (map code (stock_moves env)))"
    using assms(1) by (simp add: get_stock_at_date_def sum_list_filter_if code_def)
  moreover have "claimed_stock_at_date env product_id as_of location_ids =
      sum_list (map claim (stock_moves env))"
    by (simp add: claimed_stock_at_date_def sum_list_filter_if claim_def)
  ultimately show ?thesis by simp
qed

text \<open>
  C1. The signed sum of the specification counts a move with both ends in the internal set
  as 0. The query's \<open>CASE\<close> tests the destination first, so it counts such a move as
  \<open>+quantity\<close>: for one done transfer of 5 between the internal locations 1 and 3 the
  code returns 5 where the claim says 0.
\<close>

theorem stock_at_date_counts_internal_transfer:
  "get_location_ids transfer_env demo_wizard = [1, 3] \<and>
   get_stock_at_date transfer_env 1 \<lparr>year = 2024, month = 1, day = 31\<rparr> [1, 3] = Inr 5 \<and>
   claimed_stock_at_date transfer_env 1 \<lparr>year = 2024, month = 1, day = 31\<rparr> [1, 3] = 0"
  by (simp add: get_location_ids_def get_stock_at_date_def claimed_stock_at_date_def
      transfer_env_def demo_wizard_def wiz_def date_le_def)

end
